theory Spec2Isabelle
  imports Main "HOL-Library.Word"
begin

unbundle bit_operations_syntax

section \<open>Device pairing and directory login of the happy server and app\<close>

text \<open>
  The development embeds three source files: the pure-JS SHA-512 and HMAC of the app
  (\<^verbatim>\<open>hmac_sha512.web.ts\<close>), the LDAP module of the server (\<^verbatim>\<open>cleanUsername\<close>,
  \<^verbatim>\<open>authenticate\<close>) and the route handlers of \<^verbatim>\<open>authRoutes\<close>.

  Conventions. A \<^verbatim>\<open>Uint8Array\<close> or \<^verbatim>\<open>Buffer\<close> is a list of bytes. A JavaScript string is
  the list of its UTF-16 code units, whatever they are: a surrogate need not have its
  partner. \<open>js\<close> gives the code units of a string literal of the source written in ASCII.
  Everything outside the three files (the directory servers, the database, the token
  issuer, the base64 and hex codecs of privacy-kit, the random generator) is a field of the
  record \<open>world\<close>; a call that can throw returns a sum, \<open>Inl\<close> being the exception.
\<close>

type_synonym byte = "8 word"

type_synonym code_unit = "16 word"

type_synonym jstring = "code_unit list"

definition js :: "string \<Rightarrow> jstring" where
  "js s = map (\<lambda>c. of_nat (of_char c)) s"

datatype thrown = Thrown jstring

subsection \<open>Strings and bytes\<close>

text \<open>
  Node turns a string into bytes by encoding it in UTF-8 (\<^verbatim>\<open>hash.update(s)\<close>,
  \<^verbatim>\<open>cipher.update(s, 'utf8')\<close>): a high surrogate followed by a low one is one code point
  of four bytes, and a surrogate without its partner is encoded as the replacement
  character \<open>U+FFFD\<close>.
\<close>

definition byte_of :: "nat \<Rightarrow> byte" where
  "byte_of n = of_nat n"

definition unit_of :: "nat \<Rightarrow> code_unit" where
  "unit_of n = of_nat n"

definition high_surrogate :: "code_unit \<Rightarrow> bool" where
  "high_surrogate c \<longleftrightarrow> 0xD800 \<le> unat c \<and> unat c < 0xDC00"

definition low_surrogate :: "code_unit \<Rightarrow> bool" where
  "low_surrogate c \<longleftrightarrow> 0xDC00 \<le> unat c \<and> unat c < 0xE000"

definition utf8_of_code_point :: "nat \<Rightarrow> byte list" where
  "utf8_of_code_point n =
     (if n < 0x80 then [byte_of n]
      else if n < 0x800 then [byte_of (0xC0 + n div 64), byte_of (0x80 + n mod 64)]
      else if n < 0x10000 then
        [byte_of (0xE0 + n div 4096), byte_of (0x80 + n div 64 mod 64), byte_of (0x80 + n mod 64)]
      else [byte_of (0xF0 + n div 262144), byte_of (0x80 + n div 4096 mod 64),
            byte_of (0x80 + n div 64 mod 64), byte_of (0x80 + n mod 64)])"

fun utf8_encode :: "jstring \<Rightarrow> byte list" where
  "utf8_encode [] = []"
| "utf8_encode [c] =
     utf8_of_code_point (if high_surrogate c \<or> low_surrogate c then 0xFFFD else unat c)"
| "utf8_encode (c # d # cs) =
     (if high_surrogate c \<and> low_surrogate d
      then utf8_of_code_point (0x10000 + (unat c - 0xD800) * 1024 + (unat d - 0xDC00)) @ utf8_encode cs
      else utf8_of_code_point (if high_surrogate c \<or> low_surrogate c then 0xFFFD else unat c)
           @ utf8_encode (d # cs))"

text \<open>
  \<^verbatim>\<open>Buffer.toString('utf8')\<close> decodes: a lead byte takes the continuation bytes that may
  follow it (the first one in the range that excludes overlong forms, surrogates and code
  points above \<open>U+10FFFF\<close>), and every byte sequence that is no character, cut at the first
  byte that cannot continue it, is replaced by one \<open>U+FFFD\<close>. \<open>utf8_sequence b bs\<close> is the
  code point of the sequence that starts with \<open>b\<close> and the number of bytes of \<open>bs\<close> it
  takes.
\<close>

definition continuation :: "nat \<Rightarrow> nat \<Rightarrow> byte list \<Rightarrow> bool" where
  "continuation lo hi bs \<longleftrightarrow> (case bs of [] \<Rightarrow> False | b # _ \<Rightarrow> lo \<le> unat b \<and> unat b \<le> hi)"

definition tail6 :: "byte list \<Rightarrow> nat" where
  "tail6 bs = unat (hd bs) mod 64"

definition utf8_sequence :: "byte \<Rightarrow> byte list \<Rightarrow> nat \<times> nat" where
  "utf8_sequence b bs =
     (let n = unat b;
          lower = (if n = 0xE0 then 0xA0 else if n = 0xF0 then 0x90 else 0x80);
          upper = (if n = 0xED then 0x9F else if n = 0xF4 then 0x8F else 0xBF)
      in if n < 0x80 then (n, 0)
         else if 0xC2 \<le> n \<and> n \<le> 0xDF then
           (if continuation 0x80 0xBF bs then ((n - 0xC0) * 64 + tail6 bs, 1) else (0xFFFD, 0))
         else if 0xE0 \<le> n \<and> n \<le> 0xEF then
           (if \<not> continuation lower upper bs then (0xFFFD, 0)
            else if \<not> continuation 0x80 0xBF (drop 1 bs) then (0xFFFD, 1)
            else ((n - 0xE0) * 4096 + tail6 bs * 64 + tail6 (drop 1 bs), 2))
         else if 0xF0 \<le> n \<and> n \<le> 0xF4 then
           (if \<not> continuation lower upper bs then (0xFFFD, 0)
            else if \<not> continuation 0x80 0xBF (drop 1 bs) then (0xFFFD, 1)
            else if \<not> continuation 0x80 0xBF (drop 2 bs) then (0xFFFD, 2)
            else ((n - 0xF0) * 262144 + tail6 bs * 4096 + tail6 (drop 1 bs) * 64 + tail6 (drop 2 bs), 3))
         else (0xFFFD, 0))"

definition code_units :: "nat \<Rightarrow> jstring" where
  "code_units n =
     (if n < 0x10000 then [unit_of n]
      else [unit_of (0xD800 + (n - 0x10000) div 1024), unit_of (0xDC00 + (n - 0x10000) mod 1024)])"

function utf8_decode :: "byte list \<Rightarrow> jstring" where
  "utf8_decode [] = []"
| "utf8_decode (b # bs) =
     code_units (fst (utf8_sequence b bs)) @ utf8_decode (drop (snd (utf8_sequence b bs)) bs)"
  by pat_completeness auto
termination by (relation "measure length") auto

section \<open>The pure-JS SHA-512 and HMAC of the app\<close>

subsection \<open>JavaScript numbers\<close>

text \<open>
  The numbers of \<^verbatim>\<open>hmac_sha512.web.ts\<close> are integers far below \<open>2\<^sup>5\<^sup>3\<close> in magnitude, so
  the arithmetic of doubles is exact on them: a number is an \<open>int\<close>. The conversions and
  the bit operators follow ECMAScript: \<^verbatim>\<open>x >>> n\<close> converts \<open>x\<close> with \<open>ToUint32\<close>, \<^verbatim>\<open>x << n\<close>
  and the bitwise operators convert with \<open>ToInt32\<close> and return a signed 32-bit value, a
  shift count is taken modulo 32. A store into an \<^verbatim>\<open>Int32Array\<close> converts with \<open>ToInt32\<close>,
  so what is read back is signed.
\<close>

definition ToUint32 :: "int \<Rightarrow> int" where
  "ToUint32 x = x mod 4294967296"

definition ToInt32 :: "int \<Rightarrow> int" where
  "ToInt32 x = (let u = x mod 4294967296 in if u \<ge> 2147483648 then u - 4294967296 else u)"

definition js_ushr :: "int \<Rightarrow> int \<Rightarrow> int" where
  "js_ushr x n = ToUint32 x div 2 ^ nat (ToUint32 n mod 32)"

definition js_shl :: "int \<Rightarrow> int \<Rightarrow> int" where
  "js_shl x n = ToInt32 (ToInt32 x * 2 ^ nat (ToUint32 n mod 32))"

definition js_or :: "int \<Rightarrow> int \<Rightarrow> int" where
  "js_or a b = ToInt32 a OR ToInt32 b"

definition js_xor :: "int \<Rightarrow> int \<Rightarrow> int" where
  "js_xor a b = ToInt32 a XOR ToInt32 b"

definition js_and :: "int \<Rightarrow> int \<Rightarrow> int" where
  "js_and a b = ToInt32 a AND ToInt32 b"

definition js_not :: "int \<Rightarrow> int" where
  "js_not a = NOT (ToInt32 a)"

subsection \<open>The round constants and the 64-bit helpers\<close>

definition K :: "int list" where
  "K = [
      0x428a2f98, 0xd728ae22, 0x71374491, 0x23ef65cd, 0xb5c0fbcf, 0xec4d3b2f, 0xe9b5dba5, 0x8189dbbc,
      0x3956c25b, 0xf348b538, 0x59f111f1, 0xb605d019, 0x923f82a4, 0xaf194f9b, 0xab1c5ed5, 0xda6d8118,
      0xd807aa98, 0xa3030242, 0x12835b01, 0x45706fbe, 0x243185be, 0x4ee4b28c, 0x550c7dc3, 0xd5ffb4e2,
      0x72be5d74, 0xf27b896f, 0x80deb1fe, 0x3b1696b1, 0x9bdc06a7, 0x25c71235, 0xc19bf174, 0xcf692694,
      0xe49b69c1, 0x9ef14ad2, 0xefbe4786, 0x384f25e3, 0x0fc19dc6, 0x8b8cd5b5, 0x240ca1cc, 0x77ac9c65,
      0x2de92c6f, 0x592b0275, 0x4a7484aa, 0x6ea6e483, 0x5cb0a9dc, 0xbd41fbd4, 0x76f988da, 0x831153b5,
      0x983e5152, 0xee66dfab, 0xa831c66d, 0x2db43210, 0xb00327c8, 0x98fb213f, 0xbf597fc7, 0xbeef0ee4,
      0xc6e00bf3, 0x3da88fc2, 0xd5a79147, 0x930aa725, 0x06ca6351, 0xe003826f, 0x14292967, 0x0a0e6e70,
      0x27b70a85, 0x46d22ffc, 0x2e1b2138, 0x5c26c926, 0x4d2c6dfc, 0x5ac42aed, 0x53380d13, 0x9d95b3df,
      0x650a7354, 0x8baf63de, 0x766a0abb, 0x3c77b2a8, 0x81c2c92e, 0x47edaee6, 0x92722c85, 0x1482353b,
      0xa2bfe8a1, 0x4cf10364, 0xa81a664b, 0xbc423001, 0xc24b8b70, 0xd0f89791, 0xc76c51a3, 0x0654be30,
      0xd192e819, 0xd6ef5218, 0xd6990624, 0x5565a910, 0xf40e3585, 0x5771202a, 0x106aa070, 0x32bbd1b8,
      0x19a4c116, 0xb8d2d0c8, 0x1e376c08, 0x5141ab53, 0x2748774c, 0xdf8eeb99, 0x34b0bcb5, 0xe19b48a8,
      0x391c0cb3, 0xc5c95a63, 0x4ed8aa4a, 0xe3418acb, 0x5b9cca4f, 0x7763e373, 0x682e6ff3, 0xd6b2b8a3,
      0x748f82ee, 0x5defb2fc, 0x78a5636f, 0x43172f60, 0x84c87814, 0xa1f0ab72, 0x8cc70208, 0x1a6439ec,
      0x90befffa, 0x23631e28, 0xa4506ceb, 0xde82bde9, 0xbef9a3f7, 0xb2c67915, 0xc67178f2, 0xe372532b,
      0xca273ece, 0xea26619c, 0xd186b8c7, 0x21c0c207, 0xeada7dd6, 0xcde0eb1e, 0xf57d4f7f, 0xee6ed178,
      0x06f067aa, 0x72176fba, 0x0a637dc5, 0xa2c898a6, 0x113f9804, 0xbef90dae, 0x1b710b35, 0x131c471b,
      0x28db77f5, 0x23047d84, 0x32caab7b, 0x40c72493, 0x3c9ebe0a, 0x15c9bebc, 0x431d67c4, 0x9c100d4c,
      0x4cc5d4be, 0xcb3e42b6, 0x597f299c, 0xfc657e2a, 0x5fcb6fab, 0x3ad6faec, 0x6c44198c, 0x4a475817]"

definition add64 :: "int \<Rightarrow> int \<Rightarrow> int \<Rightarrow> int \<Rightarrow> int \<times> int" where
  "add64 ah al bh bl =
     (let lo = ToUint32 (al + bl);
          hi = ToUint32 (ah + bh + (if lo < al then 1 else 0))
      in (hi, lo))"

definition rotr64 :: "int \<Rightarrow> int \<Rightarrow> int \<Rightarrow> int \<times> int" where
  "rotr64 h l n =
     (if n < 32 then
        (ToUint32 (js_or (js_ushr h n) (js_shl l (32 - n))),
         ToUint32 (js_or (js_ushr l n) (js_shl h (32 - n))))
      else
        (let n = n - 32 in
         (ToUint32 (js_or (js_ushr l n) (js_shl h (32 - n))),
          ToUint32 (js_or (js_ushr h n) (js_shl l (32 - n))))))"

definition shr64 :: "int \<Rightarrow> int \<Rightarrow> int \<Rightarrow> int \<times> int" where
  "shr64 h l n =
     (if n < 32 then
        (ToUint32 (js_ushr h n), ToUint32 (js_or (js_ushr l n) (js_shl h (32 - n))))
      else (0, ToUint32 (js_ushr h (n - 32))))"

subsection \<open>\<^verbatim>\<open>sha512\<close>\<close>

text \<open>
  The \<^verbatim>\<open>DataView\<close> accessors, big-endian. Every access of \<^verbatim>\<open>sha512\<close> lies inside its
  buffer: the padded length is a multiple of 128.
\<close>

definition be_int :: "byte list \<Rightarrow> int" where
  "be_int bs = foldl (\<lambda>acc b. acc * 256 + uint b) 0 bs"

definition getInt32 :: "byte list \<Rightarrow> nat \<Rightarrow> int" where
  "getInt32 buf off = ToInt32 (be_int (take 4 (drop off buf)))"

definition setUint32 :: "byte list \<Rightarrow> nat \<Rightarrow> int \<Rightarrow> byte list" where
  "setUint32 buf off v =
     (let u = ToUint32 v in
      buf[off := word_of_int (u div 16777216), off + 1 := word_of_int (u div 65536),
          off + 2 := word_of_int (u div 256), off + 3 := word_of_int u])"

text \<open>
  The padding. \<^verbatim>\<open>bitLen / 0x100000000\<close> is a division of doubles, exact here, and
  \<^verbatim>\<open>>>> 0\<close> truncates it.
\<close>

definition pad :: "byte list \<Rightarrow> byte list" where
  "pad data =
     (let bitLen = int (length data) * 8;
          padLen = ((128 - ((length data + 17) mod 128)) mod 128) + 17;
          padded = (data @ replicate padLen 0)[length data := 0x80];
          padded = setUint32 padded (length padded - 4) (ToUint32 bitLen);
          padded = setUint32 padded (length padded - 8) (ToUint32 (bitLen div 4294967296))
      in padded)"

text \<open>
  A 64-bit quantity is a pair of numbers, high half first. The eight working variables
  \<^verbatim>\<open>a\<close> to \<^verbatim>\<open>h\<close>, and the eight hash values, are a value of \<open>vars\<close>.
\<close>

datatype vars = Vars (va: "int \<times> int") (vb: "int \<times> int") (vc: "int \<times> int") (vd: "int \<times> int")
  (ve: "int \<times> int") (vf: "int \<times> int") (vg: "int \<times> int") (vh: "int \<times> int")

text \<open>
  The two arrays \<^verbatim>\<open>wh\<close> and \<^verbatim>\<open>wl\<close> are a pair of lists. The first loop of a block fills
  the entries 0 to 15 from the buffer.
\<close>

definition load_word :: "byte list \<Rightarrow> nat \<Rightarrow> int list \<times> int list \<Rightarrow> nat \<Rightarrow> int list \<times> int list" where
  "load_word view offset w i =
     ((fst w)[i := getInt32 view (offset + i * 8)],
      (snd w)[i := getInt32 view (offset + i * 8 + 4)])"

text \<open>
  The body of the second loop, as a function of the four entries it reads:
  \<^verbatim>\<open>w[i-16]\<close>, \<^verbatim>\<open>w[i-15]\<close>, \<^verbatim>\<open>w[i-7]\<close> and \<^verbatim>\<open>w[i-2]\<close>, each with its two halves as the
  \<^verbatim>\<open>Int32Array\<close>s return them.
\<close>

definition sched_word ::
  "int \<Rightarrow> int \<Rightarrow> int \<Rightarrow> int \<Rightarrow> int \<Rightarrow> int \<Rightarrow> int \<Rightarrow> int \<Rightarrow> int \<times> int" where
  "sched_word w16h w16l w15h w15l w7h w7l w2h w2l =
     (let a1 = rotr64 w15h w15l 1;
          a2 = rotr64 w15h w15l 8;
          a3 = shr64 w15h w15l 7;
          s0h = ToUint32 (js_xor (js_xor (fst a1) (fst a2)) (fst a3));
          s0l = ToUint32 (js_xor (js_xor (snd a1) (snd a2)) (snd a3));
          b1 = rotr64 w2h w2l 19;
          b2 = rotr64 w2h w2l 61;
          b3 = shr64 w2h w2l 6;
          s1h = ToUint32 (js_xor (js_xor (fst b1) (fst b2)) (fst b3));
          s1l = ToUint32 (js_xor (js_xor (snd b1) (snd b2)) (snd b3));
          r = add64 w16h w16l s0h s0l;
          r = add64 (fst r) (snd r) w7h w7l;
          r = add64 (fst r) (snd r) s1h s1l
      in r)"

definition extend_word :: "int list \<times> int list \<Rightarrow> nat \<Rightarrow> int list \<times> int list" where
  "extend_word w i =
     (let wh = fst w; wl = snd w;
          r = sched_word (wh ! (i - 16)) (wl ! (i - 16)) (wh ! (i - 15)) (wl ! (i - 15))
                (wh ! (i - 7)) (wl ! (i - 7)) (wh ! (i - 2)) (wl ! (i - 2))
      in (wh[i := ToInt32 (fst r)], wl[i := ToInt32 (snd r)]))"

text \<open>
  The body of the round loop, as a function of the round constant, the schedule word and
  the working variables.
\<close>

definition round_step :: "int \<Rightarrow> int \<Rightarrow> int \<Rightarrow> int \<Rightarrow> vars \<Rightarrow> vars" where
  "round_step kh kl wih wil v =
     (let ah = fst (va v); al = snd (va v); bh = fst (vb v); bl = snd (vb v);
          ch = fst (vc v); cl = snd (vc v); dh = fst (vd v); dl = snd (vd v);
          eh = fst (ve v); el = snd (ve v); fh = fst (vf v); fl = snd (vf v);
          gh = fst (vg v); gl = snd (vg v); hh = fst (vh v); hl = snd (vh v);
          e14 = rotr64 eh el 14;
          e18 = rotr64 eh el 18;
          e41 = rotr64 eh el 41;
          S1h = ToUint32 (js_xor (js_xor (fst e14) (fst e18)) (fst e41));
          S1l = ToUint32 (js_xor (js_xor (snd e14) (snd e18)) (snd e41));
          chh = ToUint32 (js_xor (js_and eh fh) (js_and (js_not eh) gh));
          chl = ToUint32 (js_xor (js_and el fl) (js_and (js_not el) gl));
          t1 = add64 hh hl S1h S1l;
          t1 = add64 (fst t1) (snd t1) chh chl;
          t1 = add64 (fst t1) (snd t1) kh kl;
          t1 = add64 (fst t1) (snd t1) wih wil;
          a28 = rotr64 ah al 28;
          a34 = rotr64 ah al 34;
          a39 = rotr64 ah al 39;
          S0h = ToUint32 (js_xor (js_xor (fst a28) (fst a34)) (fst a39));
          S0l = ToUint32 (js_xor (js_xor (snd a28) (snd a34)) (snd a39));
          majh = ToUint32 (js_xor (js_xor (js_and ah bh) (js_and ah ch)) (js_and bh ch));
          majl = ToUint32 (js_xor (js_xor (js_and al bl) (js_and al cl)) (js_and bl cl));
          t2 = add64 S0h S0l majh majl
      in Vars (add64 (fst t1) (snd t1) (fst t2) (snd t2)) (ah, al) (bh, bl) (ch, cl)
              (add64 dh dl (fst t1) (snd t1)) (eh, el) (fh, fl) (gh, gl))"

definition round :: "int list \<times> int list \<Rightarrow> vars \<Rightarrow> nat \<Rightarrow> vars" where
  "round w v i = round_step (K ! (i * 2)) (K ! (i * 2 + 1)) (fst w ! i) (snd w ! i) v"

definition add_vars :: "vars \<Rightarrow> vars \<Rightarrow> vars" where
  "add_vars H v =
     Vars (add64 (fst (va H)) (snd (va H)) (fst (va v)) (snd (va v)))
          (add64 (fst (vb H)) (snd (vb H)) (fst (vb v)) (snd (vb v)))
          (add64 (fst (vc H)) (snd (vc H)) (fst (vc v)) (snd (vc v)))
          (add64 (fst (vd H)) (snd (vd H)) (fst (vd v)) (snd (vd v)))
          (add64 (fst (ve H)) (snd (ve H)) (fst (ve v)) (snd (ve v)))
          (add64 (fst (vf H)) (snd (vf H)) (fst (vf v)) (snd (vf v)))
          (add64 (fst (vg H)) (snd (vg H)) (fst (vg v)) (snd (vg v)))
          (add64 (fst (vh H)) (snd (vh H)) (fst (vh v)) (snd (vh v)))"

text \<open>One turn of the loop over the blocks: the state is the hash values and the two arrays.\<close>

definition schedule :: "byte list \<Rightarrow> nat \<Rightarrow> int list \<times> int list \<Rightarrow> int list \<times> int list" where
  "schedule view offset w = foldl extend_word (foldl (load_word view offset) w [0..<16]) [16..<80]"

definition block ::
  "byte list \<Rightarrow> nat \<Rightarrow> vars \<times> int list \<times> int list \<Rightarrow> vars \<times> int list \<times> int list" where
  "block view offset st =
     (let w = schedule view offset (snd st);
          v = foldl (round w) (fst st) [0..<80]
      in (add_vars (fst st) v, w))"

function blocks ::
  "byte list \<Rightarrow> nat \<Rightarrow> vars \<times> int list \<times> int list \<Rightarrow> vars \<times> int list \<times> int list" where
  "blocks view offset st =
     (if offset < length view then blocks view (offset + 128) (block view offset st) else st)"
  by pat_completeness auto
termination by (relation "measure (\<lambda>(view, offset, st). length view - offset)") auto

declare blocks.simps [simp del]

definition H_init :: vars where
  "H_init = Vars (0x6a09e667, 0xf3bcc908) (0xbb67ae85, 0x84caa73b) (0x3c6ef372, 0xfe94f82b)
                 (0xa54ff53a, 0x5f1d36f1) (0x510e527f, 0xade682d1) (0x9b05688c, 0x2b3e6c1f)
                 (0x1f83d9ab, 0xfb41bd6b) (0x5be0cd19, 0x137e2179)"

definition sha512 :: "byte list \<Rightarrow> byte list" where
  "sha512 data =
     (let H = fst (blocks (pad data) 0 (H_init, replicate 80 0, replicate 80 0));
          result = replicate 64 0;
          result = setUint32 (setUint32 result 0 (fst (va H))) 4 (snd (va H));
          result = setUint32 (setUint32 result 8 (fst (vb H))) 12 (snd (vb H));
          result = setUint32 (setUint32 result 16 (fst (vc H))) 20 (snd (vc H));
          result = setUint32 (setUint32 result 24 (fst (vd H))) 28 (snd (vd H));
          result = setUint32 (setUint32 result 32 (fst (ve H))) 36 (snd (ve H));
          result = setUint32 (setUint32 result 40 (fst (vf H))) 44 (snd (vf H));
          result = setUint32 (setUint32 result 48 (fst (vg H))) 52 (snd (vg H));
          result = setUint32 (setUint32 result 56 (fst (vh H))) 60 (snd (vh H))
      in result)"

subsection \<open>\<^verbatim>\<open>hmac_sha512\<close>\<close>

text \<open>
  \<^verbatim>\<open>paddedKey.set(actualKey)\<close> copies at most 128 bytes into the zeroed block: the key is
  either at most 128 bytes long or a digest of 64 bytes.
\<close>

definition hmac_sha512 :: "byte list \<Rightarrow> byte list \<Rightarrow> byte list" where
  "hmac_sha512 key data =
     (let blockSize = 128;
          actualKey = (if length key > blockSize then sha512 key else key);
          paddedKey = actualKey @ replicate (blockSize - length actualKey) 0;
          innerKey = map (\<lambda>b. b XOR 0x36) paddedKey;
          outerKey = map (\<lambda>b. b XOR 0x5c) paddedKey;
          innerHash = sha512 (innerKey @ data)
      in sha512 (outerKey @ innerHash))"

section \<open>The primitives of Node used by the routes\<close>

text \<open>Lower-case hexadecimal, as \<^verbatim>\<open>digest('hex')\<close> prints it.\<close>

definition hex_digit :: "nat \<Rightarrow> code_unit" where
  "hex_digit n = js ''0123456789abcdef'' ! n"

definition hex :: "byte list \<Rightarrow> jstring" where
  "hex bs = concat (map (\<lambda>b. [hex_digit (unat b div 16), hex_digit (unat b mod 16)]) bs)"

text \<open>
  \<^verbatim>\<open>Buffer.toString('base64url')\<close>: the URL-safe alphabet, no padding.
\<close>

definition base64url_alphabet :: jstring where
  "base64url_alphabet = js ''ABCDEFGHIJKLMNOPQRSTUVWXYZabcdefghijklmnopqrstuvwxyz0123456789-_''"

definition base64url_digit :: "nat \<Rightarrow> code_unit" where
  "base64url_digit n = base64url_alphabet ! n"

fun base64url :: "byte list \<Rightarrow> jstring" where
  "base64url (a # b # c # r) =
     [base64url_digit (unat a div 4), base64url_digit (unat a mod 4 * 16 + unat b div 16),
      base64url_digit (unat b mod 16 * 4 + unat c div 64), base64url_digit (unat c mod 64)]
     @ base64url r"
| "base64url [a, b] =
     [base64url_digit (unat a div 4), base64url_digit (unat a mod 4 * 16 + unat b div 16),
      base64url_digit (unat b mod 16 * 4)]"
| "base64url [a] = [base64url_digit (unat a div 4), base64url_digit (unat a mod 4 * 16)]"
| "base64url [] = []"

subsection \<open>\<^verbatim>\<open>createHash('sha256')\<close>: SHA-256 of FIPS 180-4\<close>

definition be_bytes :: "nat \<Rightarrow> 'a::len word \<Rightarrow> byte list" where
  "be_bytes n w = map (\<lambda>k. ucast (drop_bit (8 * (n - 1 - k)) w)) [0..<n]"

definition be_word :: "byte list \<Rightarrow> 'a::len word" where
  "be_word bs = foldl (\<lambda>acc b. push_bit 8 acc OR ucast b) 0 bs"

function chunks :: "nat \<Rightarrow> 'a list \<Rightarrow> 'a list list" where
  "chunks n xs = (if n = 0 \<or> xs = [] then [] else take n xs # chunks n (drop n xs))"
  by pat_completeness auto
termination by (relation "measure (\<lambda>(n, xs). length xs)") auto

declare chunks.simps [simp del]

definition Ch :: "'a::len word \<Rightarrow> 'a word \<Rightarrow> 'a word \<Rightarrow> 'a word" where
  "Ch x y z = (x AND y) XOR (NOT x AND z)"

definition Maj :: "'a::len word \<Rightarrow> 'a word \<Rightarrow> 'a word \<Rightarrow> 'a word" where
  "Maj x y z = (x AND y) XOR (x AND z) XOR (y AND z)"

definition K256 :: "32 word list" where
  "K256 =
     [0x428a2f98, 0x71374491, 0xb5c0fbcf, 0xe9b5dba5, 0x3956c25b, 0x59f111f1, 0x923f82a4, 0xab1c5ed5] @
     [0xd807aa98, 0x12835b01, 0x243185be, 0x550c7dc3, 0x72be5d74, 0x80deb1fe, 0x9bdc06a7, 0xc19bf174] @
     [0xe49b69c1, 0xefbe4786, 0x0fc19dc6, 0x240ca1cc, 0x2de92c6f, 0x4a7484aa, 0x5cb0a9dc, 0x76f988da] @
     [0x983e5152, 0xa831c66d, 0xb00327c8, 0xbf597fc7, 0xc6e00bf3, 0xd5a79147, 0x06ca6351, 0x14292967] @
     [0x27b70a85, 0x2e1b2138, 0x4d2c6dfc, 0x53380d13, 0x650a7354, 0x766a0abb, 0x81c2c92e, 0x92722c85] @
     [0xa2bfe8a1, 0xa81a664b, 0xc24b8b70, 0xc76c51a3, 0xd192e819, 0xd6990624, 0xf40e3585, 0x106aa070] @
     [0x19a4c116, 0x1e376c08, 0x2748774c, 0x34b0bcb5, 0x391c0cb3, 0x4ed8aa4a, 0x5b9cca4f, 0x682e6ff3] @
     [0x748f82ee, 0x78a5636f, 0x84c87814, 0x8cc70208, 0x90befffa, 0xa4506ceb, 0xbef9a3f7, 0xc67178f2]"

definition sha256_pad :: "byte list \<Rightarrow> byte list" where
  "sha256_pad m = m @ [0x80] @ replicate ((55 + 64 - length m mod 64) mod 64) 0
                    @ be_bytes 8 (word_of_nat (8 * length m) :: 64 word)"

definition sha256_extend :: "32 word list \<Rightarrow> nat \<Rightarrow> 32 word list" where
  "sha256_extend W t =
     W @ [(word_rotr 17 (W ! (t - 2)) XOR word_rotr 19 (W ! (t - 2)) XOR drop_bit 10 (W ! (t - 2)))
          + W ! (t - 7)
          + (word_rotr 7 (W ! (t - 15)) XOR word_rotr 18 (W ! (t - 15)) XOR drop_bit 3 (W ! (t - 15)))
          + W ! (t - 16)]"

definition sha256_round :: "32 word list \<Rightarrow> 32 word list \<Rightarrow> nat \<Rightarrow> 32 word list" where
  "sha256_round W v t =
     (case v of
        [a, b, c, d, e, f, g, h] \<Rightarrow>
          (let T1 = h + (word_rotr 6 e XOR word_rotr 11 e XOR word_rotr 25 e) + Ch e f g + K256 ! t + W ! t;
               T2 = (word_rotr 2 a XOR word_rotr 13 a XOR word_rotr 22 a) + Maj a b c
           in [T1 + T2, a, b, c, d + T1, e, f, g])
      | _ \<Rightarrow> v)"

definition sha256_compress :: "32 word list \<Rightarrow> byte list \<Rightarrow> 32 word list" where
  "sha256_compress H blk =
     (let W = foldl sha256_extend (map be_word (chunks 4 blk)) [16..<64]
      in map2 (+) H (foldl (sha256_round W) H [0..<64]))"

definition sha256_H0 :: "32 word list" where
  "sha256_H0 = [0x6a09e667, 0xbb67ae85, 0x3c6ef372, 0xa54ff53a,
                0x510e527f, 0x9b05688c, 0x1f83d9ab, 0x5be0cd19]"

definition sha256 :: "byte list \<Rightarrow> byte list" where
  "sha256 m = concat (map (be_bytes 4) (foldl sha256_compress sha256_H0 (chunks 64 (sha256_pad m))))"

subsection \<open>\<^verbatim>\<open>aes-256-gcm\<close>: AES-256 of FIPS 197 in the Galois/Counter Mode of SP 800-38D\<close>

text \<open>
  The block cipher works on a state of 16 bytes in input order (column-major); the mode
  works on 128-bit blocks read big-endian. No additional authenticated data is used.
  \<open>aes_256_gcm_encrypt\<close> is \<^verbatim>\<open>createCipheriv\<close>, \<^verbatim>\<open>update\<close>, \<^verbatim>\<open>final\<close> and \<^verbatim>\<open>getAuthTag\<close>;
  \<open>aes_256_gcm_decrypt\<close> is \<^verbatim>\<open>createDecipheriv\<close>, \<^verbatim>\<open>setAuthTag\<close>, \<^verbatim>\<open>update\<close> and \<^verbatim>\<open>final\<close>,
  which throws when the tag does not verify.
\<close>

definition SBOX :: "byte list" where
  "SBOX = [
     0x63, 0x7c, 0x77, 0x7b, 0xf2, 0x6b, 0x6f, 0xc5, 0x30, 0x01, 0x67, 0x2b, 0xfe, 0xd7, 0xab, 0x76,
     0xca, 0x82, 0xc9, 0x7d, 0xfa, 0x59, 0x47, 0xf0, 0xad, 0xd4, 0xa2, 0xaf, 0x9c, 0xa4, 0x72, 0xc0,
     0xb7, 0xfd, 0x93, 0x26, 0x36, 0x3f, 0xf7, 0xcc, 0x34, 0xa5, 0xe5, 0xf1, 0x71, 0xd8, 0x31, 0x15,
     0x04, 0xc7, 0x23, 0xc3, 0x18, 0x96, 0x05, 0x9a, 0x07, 0x12, 0x80, 0xe2, 0xeb, 0x27, 0xb2, 0x75,
     0x09, 0x83, 0x2c, 0x1a, 0x1b, 0x6e, 0x5a, 0xa0, 0x52, 0x3b, 0xd6, 0xb3, 0x29, 0xe3, 0x2f, 0x84,
     0x53, 0xd1, 0x00, 0xed, 0x20, 0xfc, 0xb1, 0x5b, 0x6a, 0xcb, 0xbe, 0x39, 0x4a, 0x4c, 0x58, 0xcf,
     0xd0, 0xef, 0xaa, 0xfb, 0x43, 0x4d, 0x33, 0x85, 0x45, 0xf9, 0x02, 0x7f, 0x50, 0x3c, 0x9f, 0xa8,
     0x51, 0xa3, 0x40, 0x8f, 0x92, 0x9d, 0x38, 0xf5, 0xbc, 0xb6, 0xda, 0x21, 0x10, 0xff, 0xf3, 0xd2,
     0xcd, 0x0c, 0x13, 0xec, 0x5f, 0x97, 0x44, 0x17, 0xc4, 0xa7, 0x7e, 0x3d, 0x64, 0x5d, 0x19, 0x73,
     0x60, 0x81, 0x4f, 0xdc, 0x22, 0x2a, 0x90, 0x88, 0x46, 0xee, 0xb8, 0x14, 0xde, 0x5e, 0x0b, 0xdb,
     0xe0, 0x32, 0x3a, 0x0a, 0x49, 0x06, 0x24, 0x5c, 0xc2, 0xd3, 0xac, 0x62, 0x91, 0x95, 0xe4, 0x79,
     0xe7, 0xc8, 0x37, 0x6d, 0x8d, 0xd5, 0x4e, 0xa9, 0x6c, 0x56, 0xf4, 0xea, 0x65, 0x7a, 0xae, 0x08,
     0xba, 0x78, 0x25, 0x2e, 0x1c, 0xa6, 0xb4, 0xc6, 0xe8, 0xdd, 0x74, 0x1f, 0x4b, 0xbd, 0x8b, 0x8a,
     0x70, 0x3e, 0xb5, 0x66, 0x48, 0x03, 0xf6, 0x0e, 0x61, 0x35, 0x57, 0xb9, 0x86, 0xc1, 0x1d, 0x9e,
     0xe1, 0xf8, 0x98, 0x11, 0x69, 0xd9, 0x8e, 0x94, 0x9b, 0x1e, 0x87, 0xe9, 0xce, 0x55, 0x28, 0xdf,
     0x8c, 0xa1, 0x89, 0x0d, 0xbf, 0xe6, 0x42, 0x68, 0x41, 0x99, 0x2d, 0x0f, 0xb0, 0x54, 0xbb, 0x16]"

definition sub_byte :: "byte \<Rightarrow> byte" where
  "sub_byte b = SBOX ! unat b"

definition xtime :: "byte \<Rightarrow> byte" where
  "xtime b = push_bit 1 b XOR (if bit b 7 then 0x1b else 0)"

definition shift_rows :: "byte list \<Rightarrow> byte list" where
  "shift_rows st = map (\<lambda>i. st ! ((i + 4 * (i mod 4)) mod 16)) [0..<16]"

definition mix_column :: "byte list \<Rightarrow> byte list" where
  "mix_column col =
     (case col of
        [a0, a1, a2, a3] \<Rightarrow>
          [xtime a0 XOR (xtime a1 XOR a1) XOR a2 XOR a3,
           a0 XOR xtime a1 XOR (xtime a2 XOR a2) XOR a3,
           a0 XOR a1 XOR xtime a2 XOR (xtime a3 XOR a3),
           (xtime a0 XOR a0) XOR a1 XOR a2 XOR xtime a3]
      | _ \<Rightarrow> col)"

definition mix_columns :: "byte list \<Rightarrow> byte list" where
  "mix_columns st = concat (map mix_column (chunks 4 st))"

definition xor_bytes :: "byte list \<Rightarrow> byte list \<Rightarrow> byte list" where
  "xor_bytes xs ys = map2 (XOR) xs ys"

definition rcon :: "nat \<Rightarrow> byte" where
  "rcon j = (xtime ^^ (j - 1)) 1"

definition expand_word :: "byte list list \<Rightarrow> nat \<Rightarrow> byte list list" where
  "expand_word ws i =
     (let temp = ws ! (i - 1);
          temp = (if i mod 8 = 0 then xor_bytes (map sub_byte (rotate1 temp)) [rcon (i div 8), 0, 0, 0]
                  else if i mod 8 = 4 then map sub_byte temp
                  else temp)
      in ws @ [xor_bytes (ws ! (i - 8)) temp])"

definition round_keys :: "byte list \<Rightarrow> byte list list" where
  "round_keys key = map concat (chunks 4 (foldl expand_word (chunks 4 key) [8..<60]))"

definition aes_round :: "byte list \<Rightarrow> byte list \<Rightarrow> byte list" where
  "aes_round st rk = xor_bytes (mix_columns (shift_rows (map sub_byte st))) rk"

definition aes256 :: "byte list \<Rightarrow> byte list \<Rightarrow> byte list" where
  "aes256 key blk =
     (let rks = round_keys key;
          st = xor_bytes blk (rks ! 0);
          st = foldl aes_round st (take 13 (drop 1 rks))
      in xor_bytes (shift_rows (map sub_byte st)) (rks ! 14))"

type_synonym block = "128 word"

definition gf_step :: "block \<Rightarrow> block \<times> block \<Rightarrow> nat \<Rightarrow> block \<times> block" where
  "gf_step X zv i =
     ((if bit X (127 - i) then fst zv XOR snd zv else fst zv),
      (if bit (snd zv) 0 then drop_bit 1 (snd zv) XOR push_bit 120 0xE1 else drop_bit 1 (snd zv)))"

definition gf_mult :: "block \<Rightarrow> block \<Rightarrow> block" where
  "gf_mult X Y = fst (foldl (gf_step X) (0, Y) [0..<128])"

definition to_block :: "byte list \<Rightarrow> block" where
  "to_block bs = be_word (take 16 (bs @ replicate 16 0))"

definition ghash :: "block \<Rightarrow> block list \<Rightarrow> block" where
  "ghash H xs = foldl (\<lambda>Y X. gf_mult (Y XOR X) H) 0 xs"

definition inc32 :: "block \<Rightarrow> block" where
  "inc32 cb = (cb AND NOT 0xFFFFFFFF) OR ((cb + 1) AND 0xFFFFFFFF)"

definition keystream :: "byte list \<Rightarrow> block \<Rightarrow> nat \<Rightarrow> byte list" where
  "keystream key icb n = concat (map (\<lambda>i. aes256 key (be_bytes 16 ((inc32 ^^ i) icb))) [0..<n])"

definition gctr :: "byte list \<Rightarrow> block \<Rightarrow> byte list \<Rightarrow> byte list" where
  "gctr key icb xs = xor_bytes xs (keystream key icb ((length xs + 15) div 16))"

definition gcm_j0 :: "block \<Rightarrow> byte list \<Rightarrow> block" where
  "gcm_j0 H iv =
     (if length iv = 12 then to_block (iv @ [0, 0, 0, 1])
      else ghash H (map to_block (chunks 16 iv) @ [word_of_nat (8 * length iv)]))"

definition gcm_tag :: "byte list \<Rightarrow> byte list \<Rightarrow> byte list \<Rightarrow> byte list" where
  "gcm_tag key iv ct =
     (let H = to_block (aes256 key (replicate 16 0));
          S = ghash H (map to_block (chunks 16 ct) @ [word_of_nat (8 * length ct)])
      in xor_bytes (aes256 key (be_bytes 16 (gcm_j0 H iv))) (be_bytes 16 S))"

definition gcm_crypt :: "byte list \<Rightarrow> byte list \<Rightarrow> byte list \<Rightarrow> byte list" where
  "gcm_crypt key iv xs = gctr key (inc32 (gcm_j0 (to_block (aes256 key (replicate 16 0))) iv)) xs"

definition aes_256_gcm_encrypt :: "byte list \<Rightarrow> byte list \<Rightarrow> byte list \<Rightarrow> thrown + byte list \<times> byte list" where
  "aes_256_gcm_encrypt key iv plain =
     (if length key \<noteq> 32 then Inl (Thrown (js ''Invalid key length''))
      else if iv = [] then Inl (Thrown (js ''Invalid initialization vector''))
      else let ct = gcm_crypt key iv plain in Inr (ct, gcm_tag key iv ct))"

definition aes_256_gcm_decrypt :: "byte list \<Rightarrow> byte list \<Rightarrow> byte list \<Rightarrow> byte list \<Rightarrow> thrown + byte list" where
  "aes_256_gcm_decrypt key iv tag ct =
     (if length key \<noteq> 32 then Inl (Thrown (js ''Invalid key length''))
      else if iv = [] then Inl (Thrown (js ''Invalid initialization vector''))
      else if length tag \<notin> {4, 8, 12, 13, 14, 15, 16} then Inl (Thrown (js ''Invalid authentication tag length''))
      else if take (length tag) (gcm_tag key iv ct) = tag then Inr (gcm_crypt key iv ct)
      else Inl (Thrown (js ''Unsupported state or unable to authenticate data'')))"

subsection \<open>The store\<close>

text \<open>
  Rows of the tables \<^verbatim>\<open>account\<close>, \<^verbatim>\<open>terminalAuthRequest\<close>, \<^verbatim>\<open>accountAuthRequest\<close> and
  \<^verbatim>\<open>userKVStore\<close>. A nullable column is an option. \<open>acc_updates\<close> counts the writes of
  \<^verbatim>\<open>updatedAt\<close>.
\<close>

record account =
  acc_id :: jstring
  acc_publicKey :: jstring
  acc_updates :: nat

record auth_request =
  req_id :: jstring
  publicKey :: jstring
  response :: "jstring option"
  responseAccountId :: "jstring option"

record terminal_auth_request = auth_request +
  supportsV2 :: bool

record kv_row =
  kv_accountId :: jstring
  kv_key :: jstring
  kv_value :: "byte list"

text \<open>
  What the LDAP module does to the outside: the bind and unbind calls on the \<open>k\<close>-th
  client it creates, and the lines it writes with \<^verbatim>\<open>log\<close> and \<^verbatim>\<open>warn\<close>.
\<close>

datatype ldap_event =
    Bind nat jstring jstring jstring
  | Unbind nat jstring
  | Log jstring
  | Warn jstring

text \<open>Every call of the database client, in the order the handlers make them.\<close>

datatype db_op =
    AccountUpsert jstring
  | KvUpsert jstring jstring
  | KvFindUnique jstring jstring
  | TerminalUpsert jstring
  | TerminalFindUnique jstring
  | TerminalFindMany
  | TerminalUpdate jstring
  | AccountReqUpsert jstring
  | AccountReqFindUnique jstring
  | AccountReqUpdate jstring

record db =
  accounts :: "account list"
  terminalAuthRequests :: "terminal_auth_request list"
  accountAuthRequests :: "auth_request list"
  userKVStore :: "kv_row list"
  next_id :: nat
  ops :: "db_op list"
  logs :: "jstring list"
  ldap_trace :: "ldap_event list"

subsection \<open>The world outside the three files\<close>

record world =
  decodeBase64 :: "jstring \<Rightarrow> byte list"
  encodeHex :: "byte list \<Rightarrow> jstring"
  new_id :: "nat \<Rightarrow> jstring"
  db_fault :: "db_op \<Rightarrow> jstring option"
  createToken :: "jstring \<Rightarrow> jstring option \<Rightarrow> thrown + jstring"
  ldap_servers :: "jstring list"
  ldap_netbios :: jstring
  ldap_bind :: "nat \<Rightarrow> jstring \<Rightarrow> jstring \<Rightarrow> jstring \<Rightarrow> jstring option"
  ldap_unbind :: "nat \<Rightarrow> jstring \<Rightarrow> jstring option"
  master_secret :: jstring
  randomBytes :: "nat \<Rightarrow> thrown + byte list"

text \<open>
  \<open>db_fault w op = Some msg\<close> says that the database call \<open>op\<close> rejects with message
  \<open>msg\<close>. \<open>ldap_bind w k url dn pw\<close> and \<open>ldap_unbind w k url\<close> are the outcome of the
  bind and of the unbind on the \<open>k\<close>-th client the loop creates: \<open>None\<close> when the call
  resolves, \<open>Some msg\<close> when it rejects with the message \<open>msg\<close>.
\<close>

definition call_db :: "world \<Rightarrow> db_op \<Rightarrow> db \<Rightarrow> db" where
  "call_db w op d = d\<lparr>ops := ops d @ [op]\<rparr>"

definition log :: "jstring \<Rightarrow> db \<Rightarrow> db" where
  "log msg d = d\<lparr>logs := logs d @ [msg]\<rparr>"

text \<open>JavaScript truthiness of a nullable string: \<^verbatim>\<open>null\<close> and \<^verbatim>\<open>""\<close> are falsy.\<close>

definition truthy :: "jstring option \<Rightarrow> bool" where
  "truthy v = (case v of None \<Rightarrow> False | Some s \<Rightarrow> s \<noteq> [])"

text \<open>\<^verbatim>\<open>tweetnacl.box.publicKeyLength\<close>.\<close>

definition publicKeyLength :: nat where
  "publicKeyLength = 32"

subsection \<open>Replies\<close>

datatype status = not_found | pending | authorized

datatype body =
    ErrorBody jstring
  | LoginBody jstring jstring
  | NasCredentialsBody jstring jstring
  | TokenBody jstring
  | RequestedBody
  | AuthorizedBody jstring jstring
  | StatusBody status bool
  | SuccessBody
  | Unhandled jstring

record reply =
  code :: nat
  payload :: body

definition send :: "nat \<Rightarrow> body \<Rightarrow> reply" where
  "send c b = \<lparr>code = c, payload = b\<rparr>"

text \<open>An exception that leaves a handler is answered by the framework with status 500.\<close>

definition unhandled :: "jstring \<Rightarrow> reply" where
  "unhandled msg = send 500 (Unhandled msg)"

subsection \<open>Table operations of the pairing requests\<close>

definition findUnique :: "jstring \<Rightarrow> ('a auth_request_scheme) list \<Rightarrow> ('a auth_request_scheme) option" where
  "findUnique pk rows = find (\<lambda>r. publicKey r = pk) rows"

definition update_response ::
  "jstring \<Rightarrow> jstring \<Rightarrow> jstring \<Rightarrow> ('a auth_request_scheme) list \<Rightarrow> ('a auth_request_scheme) list" where
  "update_response i resp uid rows =
     map (\<lambda>r. if req_id r = i then r\<lparr>response := Some resp, responseAccountId := Some uid\<rparr> else r) rows"

section \<open>The LDAP module\<close>

definition backslash :: code_unit where
  "backslash = 0x5C"

text \<open>\<^verbatim>\<open>String.prototype.split\<close> with a separator of one character.\<close>

fun js_split :: "code_unit \<Rightarrow> jstring \<Rightarrow> jstring list" where
  "js_split c [] = [[]]"
| "js_split c (x # xs) =
     (if x = c then [] # js_split c xs
      else (case js_split c xs of [] \<Rightarrow> [[x]] | y # ys \<Rightarrow> (x # y) # ys))"

text \<open>\<^verbatim>\<open>String.prototype.includes\<close>.\<close>

fun js_includes :: "jstring \<Rightarrow> jstring \<Rightarrow> bool" where
  "js_includes [] sub = (sub = [])"
| "js_includes (c # cs) sub = (take (length sub) (c # cs) = sub \<or> js_includes cs sub)"

text \<open>
  \<^verbatim>\<open>cleanUsername\<close>. The array that \<^verbatim>\<open>split\<close> returns is never empty, so \<^verbatim>\<open>pop()\<close> is its
  last element.
\<close>

definition cleanUsername :: "jstring \<Rightarrow> jstring" where
  "cleanUsername username =
     (if backslash \<in> set username then last (js_split backslash username) else username)"

record auth_result =
  success :: bool
  error :: "jstring option"

text \<open>
  The loop of \<^verbatim>\<open>authenticate\<close> over the servers that are left, \<open>k\<close> counting the clients
  created so far. The message of a caught error is \<^verbatim>\<open>err.message || String(err)\<close>; the
  world gives it as the value of the rejected call. The unbind in the \<^verbatim>\<open>catch\<close> block has
  its own \<^verbatim>\<open>try\<close> and its outcome is ignored.
\<close>

definition caught :: "jstring \<Rightarrow> jstring \<Rightarrow> nat \<Rightarrow> jstring \<Rightarrow> jstring \<Rightarrow> ldap_event list" where
  "caught name server k url msg =
     [if js_includes msg (js ''connect'') \<or> js_includes msg (js ''timeout'') \<or> js_includes msg (js ''ECONNREFUSED'')
      then Warn (js ''Server '' @ server @ js '' unavailable: '' @ msg)
      else Log (js ''Auth failed for '' @ name @ js '' on '' @ server @ js '': '' @ msg),
      Unbind k url]"

fun try_servers ::
  "world \<Rightarrow> jstring \<Rightarrow> jstring \<Rightarrow> jstring \<Rightarrow> nat \<Rightarrow> jstring list \<Rightarrow> auth_result \<times> ldap_event list" where
  "try_servers w name bindDn password k [] =
     (\<lparr>success = False, error = Some (js ''Invalid credentials'')\<rparr>, [])"
| "try_servers w name bindDn password k (server # rest) =
     (let url = js ''ldap://'' @ server in
      case ldap_bind w k url bindDn password of
        None \<Rightarrow>
          (case ldap_unbind w k url of
             None \<Rightarrow>
               (\<lparr>success = True, error = None\<rparr>,
                [Bind k url bindDn password, Unbind k url,
                 Log (js ''Auth success: '' @ name @ js '' via '' @ server)])
           | Some msg \<Rightarrow>
               (let (r, evs) = try_servers w name bindDn password (Suc k) rest
                in (r, [Bind k url bindDn password, Unbind k url] @ caught name server k url msg @ evs)))
      | Some msg \<Rightarrow>
          (let (r, evs) = try_servers w name bindDn password (Suc k) rest
           in (r, [Bind k url bindDn password] @ caught name server k url msg @ evs)))"

definition authenticate :: "world \<Rightarrow> jstring \<Rightarrow> jstring \<Rightarrow> auth_result \<times> ldap_event list" where
  "authenticate w username password =
     (let name = cleanUsername username;
          bindDn = ldap_netbios w @ [backslash] @ name
      in try_servers w name bindDn password 0 (ldap_servers w))"

section \<open>The routes\<close>

subsection \<open>The helpers for the NAS credentials\<close>

definition deriveNasCredKey :: "jstring \<Rightarrow> jstring \<Rightarrow> byte list" where
  "deriveNasCredKey masterSecret username =
     sha256 (utf8_encode (js ''nas-cred-key:'' @ masterSecret @ js '':'' @ username))"

text \<open>
  \<^verbatim>\<open>encryptNasPassword\<close> draws its nonce from \<^verbatim>\<open>randomBytes(12)\<close>; the cipher may throw.
  The password goes into the cipher as its UTF-8 encoding, and \<^verbatim>\<open>decryptNasPassword\<close>
  decodes what the cipher returns.
\<close>

definition encryptNasPassword :: "world \<Rightarrow> jstring \<Rightarrow> byte list \<Rightarrow> thrown + byte list" where
  "encryptNasPassword w password key =
     (case randomBytes w 12 of
        Inl e \<Rightarrow> Inl e
      | Inr iv \<Rightarrow>
          (case aes_256_gcm_encrypt key iv (utf8_encode password) of
             Inl e \<Rightarrow> Inl e
           | Inr (encrypted, tag) \<Rightarrow> Inr (iv @ tag @ encrypted)))"

definition decryptNasPassword :: "byte list \<Rightarrow> byte list \<Rightarrow> thrown + jstring" where
  "decryptNasPassword data key =
     (let iv = take 12 data;
          tag = take 16 (drop 12 data);
          encrypted = drop 28 data
      in case aes_256_gcm_decrypt key iv tag encrypted of
           Inl e \<Rightarrow> Inl e
         | Inr plain \<Rightarrow> Inr (utf8_decode plain))"

subsection \<open>POST /v1/auth/ad\<close>

record login_body =
  lb_username :: jstring
  lb_password :: jstring

text \<open>
  The two digests of the handler, named after the spec's identity deriver: the public key
  of the account and the secret returned to the client.
\<close>

definition deriveIdentity :: "jstring \<Rightarrow> jstring \<Rightarrow> jstring \<times> jstring" where
  "deriveIdentity masterSecret normalizedUsername =
     (hex (sha256 (utf8_encode (js ''ad:'' @ masterSecret @ js '':'' @ normalizedUsername))),
      base64url (sha256 (utf8_encode (js ''ad-secret:'' @ masterSecret @ js '':'' @ normalizedUsername))))"

text \<open>\<^verbatim>\<open>db.account.upsert\<close> by public key.\<close>

definition account_upsert :: "world \<Rightarrow> jstring \<Rightarrow> db \<Rightarrow> account \<times> db" where
  "account_upsert w pk d =
     (case find (\<lambda>a. acc_publicKey a = pk) (accounts d) of
        Some a \<Rightarrow>
          (a\<lparr>acc_updates := Suc (acc_updates a)\<rparr>,
           d\<lparr>accounts := map (\<lambda>x. if acc_publicKey x = pk then x\<lparr>acc_updates := Suc (acc_updates x)\<rparr> else x)
                            (accounts d)\<rparr>)
      | None \<Rightarrow>
          (let a = \<lparr>acc_id = new_id w (next_id d), acc_publicKey = pk, acc_updates = 0\<rparr>
           in (a, d\<lparr>accounts := accounts d @ [a], next_id := Suc (next_id d)\<rparr>)))"

text \<open>\<^verbatim>\<open>db.userKVStore.upsert\<close> by account and key.\<close>

definition kv_upsert :: "jstring \<Rightarrow> jstring \<Rightarrow> byte list \<Rightarrow> db \<Rightarrow> db" where
  "kv_upsert aid k v d =
     (if \<exists>r \<in> set (userKVStore d). kv_accountId r = aid \<and> kv_key r = k
      then d\<lparr>userKVStore := map (\<lambda>r. if kv_accountId r = aid \<and> kv_key r = k then r\<lparr>kv_value := v\<rparr> else r)
                               (userKVStore d)\<rparr>
      else d\<lparr>userKVStore := userKVStore d @ [\<lparr>kv_accountId = aid, kv_key = k, kv_value = v\<rparr>]\<rparr>)"

text \<open>The \<^verbatim>\<open>try\<close> block of the handler with its \<^verbatim>\<open>catch\<close>: whatever is thrown is logged.\<close>

definition store_nas_credentials :: "world \<Rightarrow> account \<Rightarrow> jstring \<Rightarrow> jstring \<Rightarrow> db \<Rightarrow> db" where
  "store_nas_credentials w user password normalizedUsername d =
     (let nasCredKey = deriveNasCredKey (master_secret w) normalizedUsername
      in case encryptNasPassword w password nasCredKey of
           Inl (Thrown msg) \<Rightarrow> log (js ''Failed to store NAS credentials: '' @ msg) d
         | Inr encryptedPassword \<Rightarrow>
             (let d = call_db w (KvUpsert (acc_id user) (js ''nas-credentials'')) d
              in case db_fault w (KvUpsert (acc_id user) (js ''nas-credentials'')) of
                   Some msg \<Rightarrow> log (js ''Failed to store NAS credentials: '' @ msg) d
                 | None \<Rightarrow>
                     log (js ''NAS credentials stored for '' @ normalizedUsername)
                       (kv_upsert (acc_id user) (js ''nas-credentials'') encryptedPassword d)))"

text \<open>
  The handler. The schema of the route (\<^verbatim>\<open>z.string().min(1)\<close> twice) rejects an empty
  username or password before the handler runs. \<open>ad_login\<close> is the part of the handler
  after the check of the credentials.
\<close>

definition ad_login :: "world \<Rightarrow> jstring \<Rightarrow> jstring \<Rightarrow> db \<Rightarrow> reply \<times> db" where
  "ad_login w normalizedUsername password d =
     (let masterSecret = master_secret w;
          publicKeyHash = fst (deriveIdentity masterSecret normalizedUsername);
          d = call_db w (AccountUpsert publicKeyHash) d
      in case db_fault w (AccountUpsert publicKeyHash) of
           Some msg \<Rightarrow> (unhandled msg, d)
         | None \<Rightarrow>
             let (user, d) = account_upsert w publicKeyHash d;
                 secret = snd (deriveIdentity masterSecret normalizedUsername);
                 d = store_nas_credentials w user password normalizedUsername d
             in case createToken w (acc_id user) None of
                  Inl (Thrown msg) \<Rightarrow> (unhandled msg, d)
                | Inr token \<Rightarrow>
                    (send 200 (LoginBody token secret),
                     log (js ''AD login success: '' @ normalizedUsername @ js '' '' @ [0x2192] @ js '' account ''
                            @ acc_id user) d))"

definition auth_ad :: "world \<Rightarrow> login_body \<Rightarrow> db \<Rightarrow> reply \<times> db" where
  "auth_ad w rq d =
     (let username = lb_username rq;
          password = lb_password rq
      in if username = [] \<or> password = [] then (send 400 (ErrorBody (js ''Bad Request'')), d)
         else
           let normalizedUsername = cleanUsername username;
               d = log (js ''AD login attempt: '' @ normalizedUsername) d;
               (result, events) = authenticate w username password;
               d = d\<lparr>ldap_trace := ldap_trace d @ events\<rparr>
           in if \<not> success result then (send 401 (ErrorBody (js ''Invalid credentials'')), d)
              else ad_login w normalizedUsername password d)"

subsection \<open>GET /v1/auth/ad/nas-credentials\<close>

text \<open>The route runs behind \<^verbatim>\<open>app.authenticate\<close>; the handler is given \<^verbatim>\<open>request.userId\<close>.\<close>

definition nas_credentials :: "world \<Rightarrow> jstring \<Rightarrow> jstring \<Rightarrow> db \<Rightarrow> reply \<times> db" where
  "nas_credentials w userId query_username d =
     (if query_username = [] then (send 400 (ErrorBody (js ''Bad Request'')), d)
      else
        let normalizedUsername = cleanUsername query_username;
            masterSecret = master_secret w;
            d = call_db w (KvFindUnique userId (js ''nas-credentials'')) d
        in case db_fault w (KvFindUnique userId (js ''nas-credentials'')) of
             Some msg \<Rightarrow> (unhandled msg, d)
           | None \<Rightarrow>
               (case find (\<lambda>r. kv_accountId r = userId \<and> kv_key r = js ''nas-credentials'') (userKVStore d) of
                  None \<Rightarrow> (send 404 (ErrorBody (js ''No NAS credentials found. Please log in again.'')), d)
                | Some kv \<Rightarrow>
                    (case decryptNasPassword (kv_value kv) (deriveNasCredKey masterSecret normalizedUsername) of
                       Inl (Thrown msg) \<Rightarrow>
                         (send 500 (ErrorBody (js ''Failed to decrypt credentials'')),
                          log (js ''Failed to decrypt NAS credentials for '' @ normalizedUsername @ js '': '' @ msg) d)
                     | Inr decryptedPassword \<Rightarrow>
                         (send 200 (NasCredentialsBody normalizedUsername decryptedPassword), d))))"

text \<open>The pairing routes.\<close>

subsection \<open>POST /v1/auth/request\<close>

record request_body =
  rq_publicKey :: jstring
  rq_supportsV2 :: "bool option"

definition auth_request :: "world \<Rightarrow> request_body \<Rightarrow> db \<Rightarrow> reply \<times> db" where
  "auth_request w rq d =
     (let pk = decodeBase64 w (rq_publicKey rq);
          isValid = (publicKeyLength = length pk)
      in if \<not> isValid then (send 401 (ErrorBody (js ''Invalid public key'')), d)
         else
           let publicKeyHex = encodeHex w pk;
               d = call_db w (TerminalUpsert publicKeyHex) d
           in case db_fault w (TerminalUpsert publicKeyHex) of
                Some msg \<Rightarrow> (unhandled msg, d)
              | None \<Rightarrow>
                  let (answer, d) =
                        (case findUnique publicKeyHex (terminalAuthRequests d) of
                           Some r \<Rightarrow> (r, d)
                         | None \<Rightarrow>
                             let r = \<lparr>req_id = new_id w (next_id d), publicKey = publicKeyHex,
                                      response = None, responseAccountId = None,
                                      supportsV2 = (case rq_supportsV2 rq of Some b \<Rightarrow> b | None \<Rightarrow> False)\<rparr>
                             in (r, d\<lparr>terminalAuthRequests := terminalAuthRequests d @ [r],
                                      next_id := Suc (next_id d)\<rparr>))
                  in case (response answer, responseAccountId answer) of
                       (Some resp, Some uid) \<Rightarrow>
                         if resp \<noteq> [] \<and> uid \<noteq> [] then
                           (case createToken w uid (Some (req_id answer)) of
                              Inl (Thrown msg) \<Rightarrow> (unhandled msg, d)
                            | Inr token \<Rightarrow> (send 200 (AuthorizedBody token resp), d))
                         else (send 200 RequestedBody, d)
                     | _ \<Rightarrow> (send 200 RequestedBody, d))"

subsection \<open>GET /v1/auth/request/status\<close>

definition auth_request_status :: "world \<Rightarrow> jstring \<Rightarrow> db \<Rightarrow> reply \<times> db" where
  "auth_request_status w query_publicKey d =
     (let pk = decodeBase64 w query_publicKey;
          isValid = (publicKeyLength = length pk)
      in if \<not> isValid then (send 200 (StatusBody not_found False), d)
         else
           let publicKeyHex = encodeHex w pk;
               d = call_db w (TerminalFindUnique publicKeyHex) d
           in case db_fault w (TerminalFindUnique publicKeyHex) of
                Some msg \<Rightarrow> (unhandled msg, d)
              | None \<Rightarrow>
                  (case findUnique publicKeyHex (terminalAuthRequests d) of
                     None \<Rightarrow> (send 200 (StatusBody not_found False), d)
                   | Some authRequest \<Rightarrow>
                       if truthy (response authRequest) \<and> truthy (responseAccountId authRequest)
                       then (send 200 (StatusBody authorized False), d)
                       else (send 200 (StatusBody pending (supportsV2 authRequest)), d)))"

subsection \<open>POST /v1/auth/response\<close>

text \<open>
  The route runs behind the \<^verbatim>\<open>app.authenticate\<close> pre-handler, which sets \<^verbatim>\<open>request.userId\<close>;
  the handler is given that user id.
\<close>

record response_body =
  rs_response :: jstring
  rs_publicKey :: jstring

definition auth_response :: "world \<Rightarrow> jstring \<Rightarrow> response_body \<Rightarrow> db \<Rightarrow> reply \<times> db" where
  "auth_response w userId rs d =
     (let pk = decodeBase64 w (rs_publicKey rs);
          isValid = (publicKeyLength = length pk)
      in if \<not> isValid then (send 401 (ErrorBody (js ''Invalid public key'')), d)
         else
           let publicKeyHex = encodeHex w pk;
               d = call_db w (TerminalFindUnique publicKeyHex) d
           in case db_fault w (TerminalFindUnique publicKeyHex) of
                Some msg \<Rightarrow> (unhandled msg, d)
              | None \<Rightarrow>
                  (case findUnique publicKeyHex (terminalAuthRequests d) of
                     None \<Rightarrow>
                       let d = call_db w TerminalFindMany d
                       in (case db_fault w TerminalFindMany of
                             Some msg \<Rightarrow> (unhandled msg, d)
                           | None \<Rightarrow> (send 404 (ErrorBody (js ''Request not found'')), d))
                   | Some authRequest \<Rightarrow>
                       if \<not> truthy (response authRequest) then
                         let d = call_db w (TerminalUpdate (req_id authRequest)) d
                         in (case db_fault w (TerminalUpdate (req_id authRequest)) of
                               Some msg \<Rightarrow> (unhandled msg, d)
                             | None \<Rightarrow>
                                 (send 200 SuccessBody,
                                  d\<lparr>terminalAuthRequests :=
                                      update_response (req_id authRequest) (rs_response rs) userId
                                        (terminalAuthRequests d)\<rparr>))
                       else (send 200 SuccessBody, d)))"

subsection \<open>POST /v1/auth/account/request\<close>

definition auth_account_request :: "world \<Rightarrow> jstring \<Rightarrow> db \<Rightarrow> reply \<times> db" where
  "auth_account_request w body_publicKey d =
     (let pk = decodeBase64 w body_publicKey;
          isValid = (publicKeyLength = length pk)
      in if \<not> isValid then (send 401 (ErrorBody (js ''Invalid public key'')), d)
         else
           let publicKeyHex = encodeHex w pk;
               d = call_db w (AccountReqUpsert publicKeyHex) d
           in case db_fault w (AccountReqUpsert publicKeyHex) of
                Some msg \<Rightarrow> (unhandled msg, d)
              | None \<Rightarrow>
                  let (answer, d) =
                        (case findUnique publicKeyHex (accountAuthRequests d) of
                           Some r \<Rightarrow> (r, d)
                         | None \<Rightarrow>
                             let r = \<lparr>req_id = new_id w (next_id d), publicKey = publicKeyHex,
                                      response = None, responseAccountId = None\<rparr>
                             in (r, d\<lparr>accountAuthRequests := accountAuthRequests d @ [r],
                                      next_id := Suc (next_id d)\<rparr>))
                  in case (response answer, responseAccountId answer) of
                       (Some resp, Some uid) \<Rightarrow>
                         if resp \<noteq> [] \<and> uid \<noteq> [] then
                           (case createToken w uid None of
                              Inl (Thrown msg) \<Rightarrow> (unhandled msg, d)
                            | Inr token \<Rightarrow> (send 200 (AuthorizedBody token resp), d))
                         else (send 200 RequestedBody, d)
                     | _ \<Rightarrow> (send 200 RequestedBody, d))"

subsection \<open>POST /v1/auth/account/response\<close>

definition auth_account_response :: "world \<Rightarrow> jstring \<Rightarrow> response_body \<Rightarrow> db \<Rightarrow> reply \<times> db" where
  "auth_account_response w userId rs d =
     (let pk = decodeBase64 w (rs_publicKey rs);
          isValid = (publicKeyLength = length pk)
      in if \<not> isValid then (send 401 (ErrorBody (js ''Invalid public key'')), d)
         else
           let publicKeyHex = encodeHex w pk;
               d = call_db w (AccountReqFindUnique publicKeyHex) d
           in case db_fault w (AccountReqFindUnique publicKeyHex) of
                Some msg \<Rightarrow> (unhandled msg, d)
              | None \<Rightarrow>
                  (case findUnique publicKeyHex (accountAuthRequests d) of
                     None \<Rightarrow> (send 404 (ErrorBody (js ''Request not found'')), d)
                   | Some authRequest \<Rightarrow>
                       if \<not> truthy (response authRequest) then
                         let d = call_db w (AccountReqUpdate (req_id authRequest)) d
                         in (case db_fault w (AccountReqUpdate (req_id authRequest)) of
                               Some msg \<Rightarrow> (unhandled msg, d)
                             | None \<Rightarrow>
                                 (send 200 SuccessBody,
                                  d\<lparr>accountAuthRequests :=
                                      update_response (req_id authRequest) (rs_response rs) userId
                                        (accountAuthRequests d)\<rparr>))
                       else (send 200 SuccessBody, d)))"

subsection \<open>Codecs and the inputs of the examples\<close>

text \<open>
  The handlers take their codecs from the world; the examples below run them in a world
  whose codecs are a decoder of standard base64 and lower-case hexadecimal.
\<close>

definition base64_alphabet :: jstring where
  "base64_alphabet = js ''ABCDEFGHIJKLMNOPQRSTUVWXYZabcdefghijklmnopqrstuvwxyz0123456789+/''"

fun index_of :: "'a \<Rightarrow> 'a list \<Rightarrow> nat option" where
  "index_of c [] = None"
| "index_of c (x # xs) = (if c = x then Some 0 else map_option Suc (index_of c xs))"

fun sextets :: "jstring \<Rightarrow> nat list" where
  "sextets [] = []"
| "sextets (c # cs) = (case index_of c base64_alphabet of None \<Rightarrow> sextets cs | Some v \<Rightarrow> v # sextets cs)"

fun base64_bytes :: "nat list \<Rightarrow> byte list" where
  "base64_bytes (a # b # c # d # r) =
     of_nat (a * 4 + b div 16) # of_nat (b * 16 + c div 4) # of_nat (c * 64 + d) # base64_bytes r"
| "base64_bytes [a, b, c] = [of_nat (a * 4 + b div 16), of_nat (b * 16 + c div 4)]"
| "base64_bytes [a, b] = [of_nat (a * 4 + b div 16)]"
| "base64_bytes _ = []"

definition base64_decode :: "jstring \<Rightarrow> byte list" where
  "base64_decode s = base64_bytes (sextets s)"


definition example_world :: world where
  "example_world =
     \<lparr>decodeBase64 = base64_decode, encodeHex = hex, new_id = (\<lambda>n. js (replicate (Suc n) CHR ''r'')),
      db_fault = (\<lambda>_. None), createToken = (\<lambda>uid session. Inr (js ''token-'' @ uid)),
      ldap_servers = [js ''192.168.1.230'', js ''192.168.1.231''], ldap_netbios = js ''GS-AD'',
      ldap_bind = (\<lambda>k url dn pw. if pw = js ''secret'' then None else Some (js ''Invalid Credentials'')),
      ldap_unbind = (\<lambda>k url. None), master_secret = js ''master'',
      randomBytes = (\<lambda>n. Inr (replicate n 7))\<rparr>"

definition empty_db :: db where
  "empty_db = \<lparr>accounts = [], terminalAuthRequests = [], accountAuthRequests = [],
               userKVStore = [], next_id = 0, ops = [], logs = [], ldap_trace = []\<rparr>"

definition example_key :: jstring where
  "example_key = js ''AAAAAAAAAAAAAAAAAAAAAAAAAAAAAAAAAAAAAAAAAAA=''"

definition example_key_hex :: jstring where
  "example_key_hex = js ''0000000000000000000000000000000000000000000000000000000000000000''"

definition pending_row :: terminal_auth_request where
  "pending_row = \<lparr>req_id = js ''r1'', publicKey = example_key_hex, response = None,
                  responseAccountId = None, supportsV2 = True\<rparr>"

definition answered_row :: terminal_auth_request where
  "answered_row = pending_row\<lparr>response := Some (js ''R1''), responseAccountId := Some (js ''alice'')\<rparr>"

definition empty_response_row :: terminal_auth_request where
  "empty_response_row = pending_row\<lparr>response := Some [], responseAccountId := Some (js ''alice'')\<rparr>"

definition terminal_db :: "terminal_auth_request \<Rightarrow> db" where
  "terminal_db r = empty_db\<lparr>terminalAuthRequests := [r]\<rparr>"

definition account_db :: "auth_request \<Rightarrow> db" where
  "account_db r = empty_db\<lparr>accountAuthRequests := [r]\<rparr>"

definition example_approval :: "jstring \<Rightarrow> response_body" where
  "example_approval resp = \<lparr>rs_response = resp, rs_publicKey = example_key\<rparr>"


subsection \<open>Notions used by the properties\<close>

text \<open>
  \<^verbatim>\<open>String.prototype.isWellFormed\<close>: every high surrogate is followed by a low one and
  every low surrogate follows a high one.
\<close>

fun well_formed :: "jstring \<Rightarrow> bool" where
  "well_formed [] = True"
| "well_formed [c] = (\<not> high_surrogate c \<and> \<not> low_surrogate c)"
| "well_formed (c # d # cs) =
     (if high_surrogate c then low_surrogate d \<and> well_formed cs
      else \<not> low_surrogate c \<and> well_formed (d # cs))"

text \<open>The words of an AES key schedule: \<open>n\<close> words of four bytes.\<close>

definition key_words :: "nat \<Rightarrow> byte list list \<Rightarrow> bool" where
  "key_words n ws \<longleftrightarrow> length ws = n \<and> (\<forall>w \<in> set ws. length w = 4)"

text \<open>
  The bind calls a loop over the servers can make, in the order of the configuration, and
  the bind calls of a trace.
\<close>

fun attempts :: "jstring \<Rightarrow> jstring \<Rightarrow> nat \<Rightarrow> jstring list \<Rightarrow> (nat \<times> jstring \<times> jstring \<times> jstring) list" where
  "attempts bindDn password k [] = []"
| "attempts bindDn password k (server # rest) =
     (k, js ''ldap://'' @ server, bindDn, password) # attempts bindDn password (Suc k) rest"

fun bind_calls :: "ldap_event list \<Rightarrow> (nat \<times> jstring \<times> jstring \<times> jstring) list" where
  "bind_calls [] = []"
| "bind_calls (Bind k url dn pw # evs) = (k, url, dn, pw) # bind_calls evs"
| "bind_calls (_ # evs) = bind_calls evs"

text \<open>
  A directory whose only server accepts the bind and then fails the unbind; a database
  that rejects the write of the credential vault; a login.
\<close>

definition unbind_fails_world :: world where
  "unbind_fails_world =
     example_world\<lparr>ldap_servers := [js ''dc1''], ldap_unbind := (\<lambda>k url. Some (js ''socket hang up''))\<rparr>"

definition kv_down_world :: world where
  "kv_down_world =
     example_world\<lparr>db_fault := (\<lambda>op. case op of KvUpsert a k \<Rightarrow> Some (js ''connection lost'') | _ \<Rightarrow> None)\<rparr>"

definition example_login :: login_body where
  "example_login = \<lparr>lb_username = js ''alice'', lb_password = js ''secret''\<rparr>"


section \<open>Properties\<close>

subsection \<open>Strings\<close>

lemma js_Nil: "js [] = []"
  by (simp add: js_def)

lemma js_eq_Nil: "js s = [] \<longleftrightarrow> s = []"
  by (simp add: js_def)

lemma js_append: "js (a @ b) = js a @ js b"
  by (simp add: js_def)

lemma length_js: "length (js s) = length s"
  by (simp add: js_def)

lemma unat_byte: "n < 256 \<Longrightarrow> unat (byte_of n) = n"
  by (simp add: byte_of_def unat_of_nat take_bit_nat_eq_self)

lemma unat_unit: "n < 65536 \<Longrightarrow> unat (unit_of n) = n"
  by (simp add: unit_of_def unat_of_nat take_bit_nat_eq_self)

lemma unit_of_unat: "unit_of (unat c) = c"
  by (simp add: unit_of_def)

lemma unit_bound: "unat (c :: 16 word) < 65536"
  using unsigned_less [of c] by simp

lemma tail6_byte: "m < 64 \<Longrightarrow> tail6 (byte_of (0x80 + m) # rest) = m"
proof -
  assume m: "m < 64"
  have "(64 * 2 + m) mod 64 = m mod 64" by (rule mod_mult_self4)
  with m have "(128 + m) mod 64 = m" by simp
  with m show ?thesis by (simp add: tail6_def unat_byte)
qed

lemma continuation_byte: "m < 64 \<Longrightarrow> continuation 0x80 0xBF (byte_of (0x80 + m) # rest)"
  by (simp add: continuation_def unat_byte)

lemma sequence1: "n < 0x80 \<Longrightarrow> utf8_sequence (byte_of n) rest = (n, 0)"
  by (simp add: utf8_sequence_def unat_byte)

lemma sequence2:
  assumes "0x80 \<le> n" "n < 0x800"
  shows "utf8_sequence (byte_of (0xC0 + n div 64)) (byte_of (0x80 + n mod 64) # rest) = (n, 1)"
proof -
  from assms have a: "unat (byte_of (0xC0 + n div 64)) = 0xC0 + n div 64"
    by (intro unat_byte) simp
  have b: "unat (byte_of (0x80 + n mod 64)) = 0x80 + n mod 64"
    by (intro unat_byte) simp
  from assms have r: "2 \<le> n div 64" "n div 64 \<le> 31" by simp_all
  have v: "n div 64 * 64 + n mod 64 = n" by simp
  show ?thesis
    using r v by (simp add: utf8_sequence_def a Let_def tail6_byte continuation_byte)
qed

lemma scale64: "(q::nat) div 64 * (64 * c) + q mod 64 * c = q * c"
proof -
  have "q div 64 * (64 * c) + q mod 64 * c = (q div 64 * 64 + q mod 64) * c"
    by (simp only: add_mult_distrib mult.assoc)
  then show ?thesis by (simp only: div_mult_mod_eq)
qed

lemma split3: "(n::nat) div 64 div 64 * 4096 + n div 64 mod 64 * 64 + n mod 64 = n"
  using scale64 [of "n div 64" 64] by simp

lemma split4:
  "(n::nat) div 4096 div 64 * 262144 + n div 4096 mod 64 * 4096 + n div 64 mod 64 * 64 + n mod 64 = n"
proof -
  have a: "n div 4096 div 64 * 262144 + n div 4096 mod 64 * 4096 = n div 4096 * 4096"
    using scale64 [of "n div 4096" 4096] by simp
  have b: "n div 4096 = n div 64 div 64" by (simp add: div_mult2_eq [symmetric])
  have "n div 4096 * 4096 + n div 64 mod 64 * 64 + n mod 64 = n"
    unfolding b by (rule split3)
  with a show ?thesis by simp
qed

lemma sequence3:
  assumes "0x800 \<le> n" "n < 0x10000" "\<not> (0xD800 \<le> n \<and> n < 0xE000)"
  shows "utf8_sequence (byte_of (0xE0 + n div 4096))
           (byte_of (0x80 + n div 64 mod 64) # byte_of (0x80 + n mod 64) # rest) = (n, 2)"
proof -
  define q where "q = n div 64"
  have q4: "n div 4096 = q div 64" by (simp add: q_def div_mult2_eq [symmetric])
  from assms have qb: "32 \<le> q" "q < 1024" by (simp_all add: q_def)
  from assms(3) have qs: "\<not> (864 \<le> q \<and> q < 896)"
    by (simp add: q_def less_eq_div_iff_mult_less_eq div_less_iff_less_mult)
  from qb have r: "q div 64 \<le> 15" by simp
  from qb have lo: "q div 64 = 0 \<Longrightarrow> 32 \<le> q mod 64" by simp
  have m: "q mod 64 \<le> 63" by simp
  have z: "q div 64 = 0 \<Longrightarrow> q \<le> 63"
    using div_mult_mod_eq [of q 64] m by simp
  have hi: "q mod 64 \<le> 31" if "q div 64 = 13"
  proof -
    from that div_mult_mod_eq [of q 64] have "q = 832 + q mod 64" by simp
    with qs m show ?thesis by linarith
  qed
  from r have a: "unat (byte_of (0xE0 + q div 64)) = 0xE0 + q div 64"
    by (intro unat_byte) simp
  have b: "unat (byte_of (0x80 + q mod 64)) = 0x80 + q mod 64"
    by (intro unat_byte) simp
  have k: "continuation lower upper (byte_of (0x80 + q mod 64) # xs)
      \<longleftrightarrow> lower \<le> 0x80 + q mod 64 \<and> 0x80 + q mod 64 \<le> upper" for lower upper xs
    by (simp add: continuation_def b)
  have v: "q div 64 * 4096 + q mod 64 * 64 + n mod 64 = n"
    using split3 [of n] by (simp add: q4 q_def)
  have "utf8_sequence (byte_of (0xE0 + q div 64))
           (byte_of (0x80 + q mod 64) # byte_of (0x80 + n mod 64) # rest) = (n, 2)"
    using r lo hi v m z by (simp add: utf8_sequence_def a k Let_def tail6_byte continuation_byte)
  then show ?thesis by (simp add: q4 q_def)
qed

lemma sequence4:
  assumes "0x10000 \<le> n" "n < 0x110000"
  shows "utf8_sequence (byte_of (0xF0 + n div 262144))
           (byte_of (0x80 + n div 4096 mod 64) # byte_of (0x80 + n div 64 mod 64)
              # byte_of (0x80 + n mod 64) # rest) = (n, 3)"
proof -
  define q where "q = n div 4096"
  have q4: "n div 262144 = q div 64" by (simp add: q_def div_mult2_eq [symmetric])
  from assms have qb: "16 \<le> q" "q < 272" by (simp_all add: q_def)
  from qb have r: "q div 64 \<le> 4" by simp
  from qb have lo: "q div 64 = 0 \<Longrightarrow> 16 \<le> q mod 64" by simp
  have m: "q mod 64 \<le> 63" by simp
  have z: "q div 64 = 0 \<Longrightarrow> q \<le> 63"
    using div_mult_mod_eq [of q 64] m by simp
  have hi: "q mod 64 \<le> 15" if "q div 64 = 4"
  proof -
    from that div_mult_mod_eq [of q 64] have "q = 256 + q mod 64" by simp
    with qb show ?thesis by linarith
  qed
  from r have a: "unat (byte_of (0xF0 + q div 64)) = 0xF0 + q div 64"
    by (intro unat_byte) simp
  have b: "unat (byte_of (0x80 + q mod 64)) = 0x80 + q mod 64"
    by (intro unat_byte) simp
  have k: "continuation lower upper (byte_of (0x80 + q mod 64) # xs)
      \<longleftrightarrow> lower \<le> 0x80 + q mod 64 \<and> 0x80 + q mod 64 \<le> upper" for lower upper xs
    by (simp add: continuation_def b)
  have v: "q div 64 * 262144 + q mod 64 * 4096 + n div 64 mod 64 * 64 + n mod 64 = n"
    using split4 [of n] by (simp add: q4 q_def)
  have "utf8_sequence (byte_of (0xF0 + q div 64))
           (byte_of (0x80 + q mod 64) # byte_of (0x80 + n div 64 mod 64)
              # byte_of (0x80 + n mod 64) # rest) = (n, 3)"
    using r lo hi v m z by (simp add: utf8_sequence_def a k Let_def tail6_byte continuation_byte)
  then show ?thesis by (simp add: q4 q_def)
qed

lemma decode_code_point:
  assumes "n < 0x110000" "\<not> (0xD800 \<le> n \<and> n < 0xE000)"
  shows "utf8_decode (utf8_of_code_point n @ rest) = code_units n @ utf8_decode rest"
  using assms
  by (simp add: utf8_of_code_point_def sequence1 sequence2 sequence3 sequence4)

lemma code_units_unit: "code_units (unat c) = [c]"
  using unit_bound [of c] by (simp add: code_units_def unit_of_unat)

lemma code_units_pair:
  assumes "high_surrogate c" "low_surrogate d"
  shows "code_units (0x10000 + (unat c - 0xD800) * 1024 + (unat d - 0xDC00)) = [c, d]"
proof -
  from assms have c: "0xD800 \<le> unat c" "unat c < 0xDC00" and d: "0xDC00 \<le> unat d" "unat d < 0xE000"
    by (simp_all add: high_surrogate_def low_surrogate_def)
  define x where "x = unat c - 0xD800"
  define y where "y = unat d - 0xDC00"
  from c d have xy: "x < 1024" "y < 1024" "unat c = 0xD800 + x" "unat d = 0xDC00 + y"
    by (simp_all add: x_def y_def)
  have "(x * 1024 + y) div 1024 = x" "(x * 1024 + y) mod 1024 = y"
    using xy(2) by simp_all
  then have "code_units (0x10000 + x * 1024 + y) = [unit_of (unat c), unit_of (unat d)]"
    by (simp add: code_units_def xy add.assoc)
  then show ?thesis by (simp add: x_def y_def unit_of_unat)
qed

lemma utf8_round_trip: "well_formed s \<Longrightarrow> utf8_decode (utf8_encode s) = s"
proof (induction s rule: utf8_encode.induct)
  case 1
  show ?case by simp
next
  case (2 c)
  then have "utf8_decode (utf8_of_code_point (unat c) @ []) = code_units (unat c) @ utf8_decode []"
    using unit_bound [of c]
    by (intro decode_code_point) (auto simp: high_surrogate_def low_surrogate_def)
  with 2 show ?case by (simp add: code_units_unit)
next
  case (3 c d cs)
  show ?case
  proof (cases "high_surrogate c")
    case True
    with "3.prems" have d: "low_surrogate d" and wf: "well_formed cs" by simp_all
    let ?n = "0x10000 + (unat c - 0xD800) * 1024 + (unat d - 0xDC00)"
    from True d have "unat c < 0xDC00" "unat d < 0xE000"
      by (simp_all add: high_surrogate_def low_surrogate_def)
    then have "?n < 0x110000" by arith
    then have "utf8_decode (utf8_of_code_point ?n @ utf8_encode cs) = code_units ?n @ utf8_decode (utf8_encode cs)"
      by (intro decode_code_point) simp_all
    with True d wf "3.IH"(1) show ?thesis
      by (simp add: code_units_pair)
  next
    case False
    with "3.prems" have l: "\<not> low_surrogate c" and wf: "well_formed (d # cs)" by simp_all
    from False l have "utf8_decode (utf8_of_code_point (unat c) @ utf8_encode (d # cs))
        = code_units (unat c) @ utf8_decode (utf8_encode (d # cs))"
      using unit_bound [of c]
      by (intro decode_code_point) (auto simp: high_surrogate_def low_surrogate_def)
    with False l wf "3.IH"(2) show ?thesis
      by (simp add: code_units_unit)
  qed
qed

lemma encode_lone: "utf8_encode [0xD800] = [0xEF, 0xBF, 0xBD]"
  by (simp add: high_surrogate_def utf8_of_code_point_def byte_of_def)

lemma decode_replacement: "utf8_decode [0xEF, 0xBF, 0xBD] = [0xFFFD]"
  by (simp add: utf8_sequence_def continuation_def tail6_def code_units_def unit_of_def)

subsection \<open>Sizes of the digests and encodings\<close>

lemma length_hex: "length (hex bs) = 2 * length bs"
  by (induction bs) (simp_all add: hex_def)

lemma length_base64url: "length (base64url bs) = (4 * length bs + 2) div 3"
  by (induction bs rule: base64url.induct) simp_all

lemma length_be_bytes: "length (be_bytes n w) = n"
  by (simp add: be_bytes_def)

lemma length_sha256_round: "length (sha256_round W v t) = length v"
  by (simp add: sha256_round_def Let_def split: list.splits)

lemma length_sha256_rounds: "length (foldl (sha256_round W) v ts) = length v"
  by (induction ts arbitrary: v) (simp_all add: length_sha256_round)

lemma length_sha256_compress: "length (sha256_compress H blk) = length H"
  by (simp add: sha256_compress_def Let_def length_sha256_rounds)

lemma length_sha256_blocks: "length (foldl sha256_compress H blks) = length H"
  by (induction blks arbitrary: H) (simp_all add: length_sha256_compress)

lemma length_concat_be_bytes: "length (concat (map (be_bytes n) ws)) = n * length ws"
  by (induction ws) (simp_all add: length_be_bytes)

lemma length_sha256: "length (sha256 m) = 32"
  by (simp add: sha256_def length_concat_be_bytes length_sha256_blocks sha256_H0_def)

subsection \<open>AES-GCM: sizes and the round trip\<close>

lemma chunks_Nil: "chunks n [] = []"
  by (simp add: chunks.simps)

lemma chunks_step: "n \<noteq> 0 \<Longrightarrow> xs \<noteq> [] \<Longrightarrow> chunks n xs = take n xs # chunks n (drop n xs)"
  by (subst chunks.simps) simp

lemma chunks_exact:
  "0 < n \<Longrightarrow> length xs = n * k \<Longrightarrow>
     length (chunks n xs) = k \<and> (\<forall>c \<in> set (chunks n xs). length c = n)"
proof (induction k arbitrary: xs)
  case 0
  then show ?case by (simp add: chunks_Nil)
next
  case (Suc k)
  from Suc.prems have ne: "xs \<noteq> []" by auto
  from Suc.prems have len: "length (drop n xs) = n * k" by simp
  from Suc.prems have t: "length (take n xs) = n" by simp
  from Suc.prems(1) ne have e: "chunks n xs = take n xs # chunks n (drop n xs)"
    by (simp add: chunks_step)
  from Suc.IH [OF Suc.prems(1) len] t show ?case
    unfolding e by simp
qed

lemma length_xor_bytes: "length (xor_bytes xs ys) = min (length xs) (length ys)"
  by (simp add: xor_bytes_def)

lemma xor_bytes_twice: "length xs \<le> length ks \<Longrightarrow> xor_bytes (xor_bytes xs ks) ks = xs"
proof (induction xs arbitrary: ks)
  case Nil
  then show ?case by (simp add: xor_bytes_def)
next
  case (Cons x xs)
  then obtain k ks' where ks: "ks = k # ks'" by (cases ks) auto
  with Cons.prems have "length xs \<le> length ks'" by simp
  from Cons.IH [OF this] ks show ?case
    by (simp add: xor_bytes_def xor.assoc)
qed

lemma key_words_expand:
  assumes "key_words i ws" "8 \<le> i"
  shows "key_words (Suc i) (expand_word ws i)"
proof -
  from assms have len: "length ws = i" and all4: "\<forall>w \<in> set ws. length w = 4"
    by (simp_all add: key_words_def)
  from len assms(2) have "ws ! (i - 1) \<in> set ws" "ws ! (i - 8) \<in> set ws"
    by (simp_all add: nth_mem)
  with all4 have a: "length (ws ! (i - 1)) = 4" and b: "length (ws ! (i - 8)) = 4"
    by blast+
  define temp where "temp =
     (if i mod 8 = 0 then xor_bytes (map sub_byte (rotate1 (ws ! (i - 1)))) [rcon (i div 8), 0, 0, 0]
      else if i mod 8 = 4 then map sub_byte (ws ! (i - 1))
      else ws ! (i - 1))"
  have t: "length temp = 4"
    unfolding temp_def using a by (simp add: length_xor_bytes)
  have e: "expand_word ws i = ws @ [xor_bytes (ws ! (i - 8)) temp]"
    by (simp only: expand_word_def temp_def Let_def)
  have "length (xor_bytes (ws ! (i - 8)) temp) = 4"
    using b t by (simp add: length_xor_bytes)
  with len all4 show ?thesis
    unfolding e key_words_def by simp
qed

lemma key_words_fold:
  "key_words a ws \<Longrightarrow> 8 \<le> a \<Longrightarrow> a \<le> b \<Longrightarrow> key_words b (foldl expand_word ws [a..<b])"
proof (induction b)
  case 0
  then show ?case by simp
next
  case (Suc b)
  show ?case
  proof (cases "a = Suc b")
    case True
    with Suc.prems show ?thesis by simp
  next
    case False
    with Suc.prems have ab: "a \<le> b" by simp
    from Suc.IH [OF Suc.prems(1,2) ab] have "key_words b (foldl expand_word ws [a..<b])" .
    moreover from ab Suc.prems have "8 \<le> b" by simp
    ultimately have "key_words (Suc b) (expand_word (foldl expand_word ws [a..<b]) b)"
      by (rule key_words_expand)
    with ab show ?thesis by simp
  qed
qed

lemma round_keys_sizes:
  assumes "length key = 32"
  shows "length (round_keys key) = 15 \<and> (\<forall>rk \<in> set (round_keys key). length rk = 16)"
proof -
  define ws where "ws = foldl expand_word (chunks 4 key) [8..<60]"
  from assms have "length key = 4 * 8" by simp
  from chunks_exact [OF _ this] have "key_words 8 (chunks 4 key)"
    by (simp add: key_words_def)
  then have "key_words 60 ws"
    unfolding ws_def by (rule key_words_fold) simp_all
  then have l: "length ws = 4 * 15" and w4: "\<forall>w \<in> set ws. length w = 4"
    by (simp_all add: key_words_def)
  from chunks_exact [OF _ l]
  have c: "length (chunks 4 ws) = 15" and d: "\<forall>c \<in> set (chunks 4 ws). length c = 4"
    by simp_all
  have sub: "set c \<subseteq> set ws" if "c \<in> set (chunks 4 ws)" for c
    using that
  proof (induction "length ws" arbitrary: ws rule: less_induct)
    case less
    show ?case
    proof (cases "ws = []")
      case True
      with less.prems show ?thesis by (simp add: chunks_Nil)
    next
      case False
      then have e: "chunks 4 ws = take 4 ws # chunks 4 (drop 4 ws)"
        by (simp add: chunks_step)
      from less.prems consider "c = take 4 ws" | "c \<in> set (chunks 4 (drop 4 ws))"
        unfolding e by auto
      then show ?thesis
      proof cases
        case 1
        then show ?thesis by (simp add: set_take_subset)
      next
        case 2
        from False have "length (drop 4 ws) < length ws" by simp
        from less.hyps [OF this 2] have "set c \<subseteq> set (drop 4 ws)" .
        also have "\<dots> \<subseteq> set ws" by (rule set_drop_subset)
        finally show ?thesis .
      qed
    qed
  qed
  have "length (concat c) = 16" if "c \<in> set (chunks 4 ws)" for c
  proof -
    from that d have lc: "length c = 4" by blast
    from sub [OF that] w4 have "\<forall>w \<in> set c. length w = 4" by blast
    then have "map length c = replicate (length c) 4"
      by (induction c) simp_all
    with lc show ?thesis by (simp add: length_concat sum_list_replicate)
  qed
  with c show ?thesis
    by (simp add: round_keys_def ws_def)
qed

lemma length_shift_rows: "length (shift_rows st) = 16"
  by (simp add: shift_rows_def)

lemma length_aes256: "length key = 32 \<Longrightarrow> length (aes256 key blk) = 16"
proof -
  assume "length key = 32"
  then have s: "length (round_keys key) = 15" "\<forall>rk \<in> set (round_keys key). length rk = 16"
    using round_keys_sizes by blast+
  then have "round_keys key ! 14 \<in> set (round_keys key)" by (simp add: nth_mem)
  with s have "length (round_keys key ! 14) = 16" by blast
  then show ?thesis
    by (simp add: aes256_def Let_def length_xor_bytes length_shift_rows)
qed

lemma length_keystream: "length key = 32 \<Longrightarrow> length (keystream key icb n) = 16 * n"
proof -
  assume k: "length key = 32"
  have "length (concat (map f xs)) = 16 * length xs"
    if "\<And>x. length (f x) = 16" for f :: "nat \<Rightarrow> byte list" and xs
    using that by (induction xs) simp_all
  from this [of "\<lambda>i. aes256 key (be_bytes 16 ((inc32 ^^ i) icb))" "[0..<n]"] k
  show ?thesis by (simp add: keystream_def length_aes256)
qed

lemma keystream_covers: "length xs \<le> 16 * ((length xs + 15) div 16)"
  by presburger

lemma length_gctr: "length key = 32 \<Longrightarrow> length (gctr key icb xs) = length xs"
  using keystream_covers [of xs] by (simp add: gctr_def length_xor_bytes length_keystream)

lemma gctr_twice: "length key = 32 \<Longrightarrow> gctr key icb (gctr key icb xs) = xs"
proof -
  assume k: "length key = 32"
  have "length xs \<le> length (keystream key icb ((length xs + 15) div 16))"
    using k keystream_covers [of xs] by (simp add: length_keystream)
  then have "xor_bytes (xor_bytes xs (keystream key icb ((length xs + 15) div 16)))
               (keystream key icb ((length xs + 15) div 16)) = xs"
    by (rule xor_bytes_twice)
  moreover have "length (gctr key icb xs) = length xs" using k by (rule length_gctr)
  ultimately show ?thesis by (simp add: gctr_def)
qed

lemma length_gcm_tag: "length key = 32 \<Longrightarrow> length (gcm_tag key iv ct) = 16"
  by (simp add: gcm_tag_def Let_def length_xor_bytes length_aes256 length_be_bytes)

lemma gcm_crypt_twice: "length key = 32 \<Longrightarrow> gcm_crypt key iv (gcm_crypt key iv xs) = xs"
  by (simp add: gcm_crypt_def gctr_twice)

lemma length_gcm_crypt: "length key = 32 \<Longrightarrow> length (gcm_crypt key iv xs) = length xs"
  by (simp add: gcm_crypt_def length_gctr)

lemma gcm_decrypt_encrypt:
  assumes "length key = 32" "iv \<noteq> []"
  shows "aes_256_gcm_encrypt key iv plain = Inr (gcm_crypt key iv plain, gcm_tag key iv (gcm_crypt key iv plain))
       \<and> aes_256_gcm_decrypt key iv (gcm_tag key iv (gcm_crypt key iv plain)) (gcm_crypt key iv plain)
           = Inr plain"
  using assms
  by (simp add: aes_256_gcm_encrypt_def aes_256_gcm_decrypt_def Let_def length_gcm_tag gcm_crypt_twice)

lemma seal_unseal:
  assumes "length key = 32" and "randomBytes w 12 = Inr iv" and "length iv = 12"
  shows "aes_256_gcm_encrypt key iv (utf8_encode password)
           = Inr (gcm_crypt key iv (utf8_encode password),
                  gcm_tag key iv (gcm_crypt key iv (utf8_encode password)))
       \<and> length (gcm_tag key iv (gcm_crypt key iv (utf8_encode password))) = 16
       \<and> length (gcm_crypt key iv (utf8_encode password)) = length (utf8_encode password)
       \<and> encryptNasPassword w password key
           = Inr (iv @ gcm_tag key iv (gcm_crypt key iv (utf8_encode password))
                     @ gcm_crypt key iv (utf8_encode password))
       \<and> decryptNasPassword
             (iv @ gcm_tag key iv (gcm_crypt key iv (utf8_encode password))
                 @ gcm_crypt key iv (utf8_encode password)) key
           = Inr (utf8_decode (utf8_encode password))"
proof -
  from assms(3) have ne: "iv \<noteq> []" by auto
  let ?ct = "gcm_crypt key iv (utf8_encode password)"
  let ?tag = "gcm_tag key iv ?ct"
  from gcm_decrypt_encrypt [OF assms(1) ne, of "utf8_encode password"]
  have enc: "aes_256_gcm_encrypt key iv (utf8_encode password) = Inr (?ct, ?tag)"
    and dec: "aes_256_gcm_decrypt key iv ?tag ?ct = Inr (utf8_encode password)"
    by simp_all
  have lt: "length ?tag = 16" using assms(1) by (rule length_gcm_tag)
  have lc: "length ?ct = length (utf8_encode password)" using assms(1) by (rule length_gcm_crypt)
  have seal: "encryptNasPassword w password key = Inr (iv @ ?tag @ ?ct)"
    by (simp add: encryptNasPassword_def assms(2) enc)
  have unseal: "decryptNasPassword (iv @ ?tag @ ?ct) key = Inr (utf8_decode (utf8_encode password))"
    using assms(3) lt by (simp add: decryptNasPassword_def Let_def dec)
  from enc lt lc seal unseal show ?thesis by simp
qed

text \<open>
  Claim C5, as amended. For every plaintext that is a well-formed string (no surrogate
  without its partner), every 32-byte key and every 12-byte nonce drawn by
  \<^verbatim>\<open>randomBytes\<close>, sealing succeeds, the sealed blob is the nonce, then the 16-byte tag, then
  the ciphertext (as long as the UTF-8 encoding of the plaintext), and unsealing that blob
  under the same key returns the plaintext.
\<close>

theorem seal_unseal_round_trip:
  assumes "well_formed password"
    and "length key = 32" and "randomBytes w 12 = Inr iv" and "length iv = 12"
  shows "\<exists>tag encrypted.
           aes_256_gcm_encrypt key iv (utf8_encode password) = Inr (encrypted, tag)
         \<and> length tag = 16 \<and> length encrypted = length (utf8_encode password)
         \<and> encryptNasPassword w password key = Inr (iv @ tag @ encrypted)
         \<and> decryptNasPassword (iv @ tag @ encrypted) key = Inr password"
  using seal_unseal [OF assms(2-4), of password] utf8_round_trip [OF assms(1)]
  by simp

theorem seal_unseal_round_trip_witness:
  "well_formed (js ''hunter2'')
   \<and> length (replicate 32 (1::byte)) = 32
   \<and> randomBytes example_world 12 = Inr (replicate 12 7)
   \<and> length (replicate 12 (7::byte)) = 12
   \<and> (\<exists>tag encrypted.
         encryptNasPassword example_world (js ''hunter2'') (replicate 32 1)
           = Inr (replicate 12 7 @ tag @ encrypted)
       \<and> length tag = 16
       \<and> decryptNasPassword (replicate 12 7 @ tag @ encrypted) (replicate 32 1) = Inr (js ''hunter2''))"
proof -
  have h0: "well_formed (js ''hunter2'')"
    by (simp add: js_def high_surrogate_def low_surrogate_def)
  have h1: "length (replicate 32 (1::byte)) = 32" by simp
  have h2: "randomBytes example_world 12 = Inr (replicate 12 7)" by (simp add: example_world_def)
  have h3: "length (replicate 12 (7::byte)) = 12" by simp
  from seal_unseal_round_trip [OF h0 h1 h2 h3] h0 h1 h2 h3
  show ?thesis by blast
qed

text \<open>
  The claim as stated fails for a plaintext with a surrogate that has no partner, which
  the route accepts as a password: the string of the one code unit \<open>0xD800\<close> is sealed as
  the three bytes of \<open>U+FFFD\<close>, and unsealing the blob returns \<open>U+FFFD\<close>, another string.
\<close>

theorem lone_surrogate_not_restored_counterexample:
  "utf8_encode [0xD800] = [0xEF, 0xBF, 0xBD]
   \<and> encryptNasPassword example_world [0xD800] (replicate 32 1)
       = Inr (replicate 12 7
              @ gcm_tag (replicate 32 1) (replicate 12 7) (gcm_crypt (replicate 32 1) (replicate 12 7) [0xEF, 0xBF, 0xBD])
              @ gcm_crypt (replicate 32 1) (replicate 12 7) [0xEF, 0xBF, 0xBD])
   \<and> decryptNasPassword
         (replicate 12 7
          @ gcm_tag (replicate 32 1) (replicate 12 7) (gcm_crypt (replicate 32 1) (replicate 12 7) [0xEF, 0xBF, 0xBD])
          @ gcm_crypt (replicate 32 1) (replicate 12 7) [0xEF, 0xBF, 0xBD])
         (replicate 32 1)
       = Inr [0xFFFD]
   \<and> [0xFFFD] \<noteq> [0xD800 :: code_unit]"
proof -
  have h1: "length (replicate 32 (1::byte)) = 32" by simp
  have h2: "randomBytes example_world 12 = Inr (replicate 12 7)" by (simp add: example_world_def)
  have h3: "length (replicate 12 (7::byte)) = 12" by simp
  from seal_unseal [OF h1 h2 h3, of "[0xD800]"] show ?thesis
    by (simp only: encode_lone decode_replacement) simp
qed

subsection \<open>The directory authenticator\<close>

lemma js_split_not_Nil: "js_split c zs \<noteq> []"
  by (cases zs) (auto split: list.splits)

lemma length_js_split_Cons: "x \<noteq> c \<Longrightarrow> length (js_split c (x # zs)) = length (js_split c zs)"
  using js_split_not_Nil [of c zs] by (auto split: list.splits)

lemma last_js_split_Cons:
  "x \<noteq> c \<Longrightarrow> 2 \<le> length (js_split c zs) \<Longrightarrow> last (js_split c (x # zs)) = last (js_split c zs)"
  by (cases "js_split c zs") (auto split: list.splits)

lemma length_js_split_sep: "2 \<le> length (js_split c (xs @ c # ys))"
proof (induction xs)
  case Nil
  show ?case using js_split_not_Nil [of c ys] by (cases "js_split c ys") auto
next
  case (Cons x xs)
  show ?case
  proof (cases "x = c")
    case True
    then show ?thesis using js_split_not_Nil [of c "xs @ c # ys"]
      by (cases "js_split c (xs @ c # ys)") auto
  next
    case False
    then have "length (js_split c (x # (xs @ c # ys))) = length (js_split c (xs @ c # ys))"
      by (rule length_js_split_Cons)
    with Cons show ?thesis by simp
  qed
qed

lemma last_js_split: "last (js_split c (xs @ c # ys)) = last (js_split c ys)"
proof (induction xs)
  case Nil
  show ?case using js_split_not_Nil [of c ys] by simp
next
  case (Cons x xs)
  show ?case
  proof (cases "x = c")
    case True
    with Cons js_split_not_Nil [of c "xs @ c # ys"] show ?thesis by simp
  next
    case False
    have "last (js_split c (x # (xs @ c # ys))) = last (js_split c (xs @ c # ys))"
      using False length_js_split_sep by (rule last_js_split_Cons)
    with Cons show ?thesis by simp
  qed
qed

lemma js_split_no_separator: "c \<notin> set ys \<Longrightarrow> js_split c ys = [ys]"
  by (induction ys) auto

lemma cleanUsername_prefixed:
  "backslash \<notin> set u \<Longrightarrow> cleanUsername (p @ backslash # u) = u"
  by (simp add: cleanUsername_def last_js_split js_split_no_separator)

lemma cleanUsername_bare: "backslash \<notin> set u \<Longrightarrow> cleanUsername u = u"
  by (simp add: cleanUsername_def)

lemma bind_calls_append: "bind_calls (xs @ ys) = bind_calls xs @ bind_calls ys"
  by (induction xs rule: bind_calls.induct) simp_all

lemma bind_calls_caught: "bind_calls (caught name server k url msg) = []"
  by (simp add: caught_def)

lemma try_servers_failure_generic:
  "\<not> success (fst (try_servers w name dn pw k ss)) \<Longrightarrow>
     fst (try_servers w name dn pw k ss) = \<lparr>success = False, error = Some (js ''Invalid credentials'')\<rparr>"
proof (induction ss arbitrary: k)
  case Nil
  then show ?case by simp
next
  case (Cons s ss)
  obtain r evs where rest: "try_servers w name dn pw (Suc k) ss = (r, evs)"
    by (cases "try_servers w name dn pw (Suc k) ss")
  from Cons.IH [of "Suc k"] rest
  have ih: "\<not> success r \<Longrightarrow> r = \<lparr>success = False, error = Some (js ''Invalid credentials'')\<rparr>"
    by simp
  from Cons.prems rest ih show ?case
    by (auto simp: Let_def split: option.splits)
qed

lemma try_servers_binds_in_order:
  "\<exists>m \<le> length ss. bind_calls (snd (try_servers w name dn pw k ss)) = take m (attempts dn pw k ss)"
proof (induction ss arbitrary: k)
  case Nil
  then show ?case by simp
next
  case (Cons s ss)
  from Cons.IH [of "Suc k"] obtain m where m: "m \<le> length ss"
    "bind_calls (snd (try_servers w name dn pw (Suc k) ss)) = take m (attempts dn pw (Suc k) ss)"
    by blast
  show ?case
  proof (cases "ldap_bind w k (js ''ldap://'' @ s) dn pw = None \<and> ldap_unbind w k (js ''ldap://'' @ s) = None")
    case True
    then have "bind_calls (snd (try_servers w name dn pw k (s # ss))) = take 1 (attempts dn pw k (s # ss))"
      by (simp add: Let_def)
    then show ?thesis by (intro exI [of _ 1]) simp
  next
    case False
    obtain r evs where rest: "try_servers w name dn pw (Suc k) ss = (r, evs)"
      by (cases "try_servers w name dn pw (Suc k) ss")
    with m(2) have "bind_calls evs = take m (attempts dn pw (Suc k) ss)" by simp
    with False rest have "bind_calls (snd (try_servers w name dn pw k (s # ss)))
                 = take (Suc m) (attempts dn pw k (s # ss))"
      by (auto simp: Let_def bind_calls_append bind_calls_caught split: option.splits)
    with m(1) show ?thesis by (intro exI [of _ "Suc m"]) simp
  qed
qed

lemma try_servers_success_iff:
  "success (fst (try_servers w name dn pw k ss)) \<longleftrightarrow>
     (\<exists>i < length ss. ldap_bind w (k + i) (js ''ldap://'' @ ss ! i) dn pw = None
                     \<and> ldap_unbind w (k + i) (js ''ldap://'' @ ss ! i) = None)"
proof (induction ss arbitrary: k)
  case Nil
  then show ?case by simp
next
  case (Cons s ss)
  have split: "(\<exists>i < length (s # ss). P i) \<longleftrightarrow> P 0 \<or> (\<exists>i < length ss. P (Suc i))" for P
    by (auto simp: less_Suc_eq_0_disj)
  obtain r evs where rest: "try_servers w name dn pw (Suc k) ss = (r, evs)"
    by (cases "try_servers w name dn pw (Suc k) ss")
  from Cons.IH [of "Suc k"] rest
  have ih: "success r \<longleftrightarrow>
     (\<exists>i < length ss. ldap_bind w (Suc k + i) (js ''ldap://'' @ ss ! i) dn pw = None
                     \<and> ldap_unbind w (Suc k + i) (js ''ldap://'' @ ss ! i) = None)"
    by simp
  show ?case
    unfolding split using rest ih
    by (auto simp: Let_def split: option.splits)
qed

lemma authenticate_no_bind_fails:
  assumes "\<forall>i < length (ldap_servers w).
             ldap_bind w i (js ''ldap://'' @ ldap_servers w ! i)
               (ldap_netbios w @ [backslash] @ cleanUsername username) password \<noteq> None"
  shows "fst (authenticate w username password) = \<lparr>success = False, error = Some (js ''Invalid credentials'')\<rparr>"
proof -
  from assms have "\<not> success (fst (authenticate w username password))"
    by (auto simp: authenticate_def Let_def try_servers_success_iff)
  then show ?thesis
    unfolding authenticate_def Let_def by (rule try_servers_failure_generic)
qed

text \<open>
  Claim C8, at the failing input: one configured server, the bind resolves, the unbind that
  follows it in the \<^verbatim>\<open>try\<close> block rejects. The rejection is caught as if the bind had
  failed, the loop runs out of servers and \<^verbatim>\<open>authenticate\<close> returns the failure, although
  the bind succeeded.
\<close>

theorem unbind_failure_refuses_login:
  "ldap_bind unbind_fails_world 0 (js ''ldap://dc1'') (js ''GS-AD'' @ [backslash] @ js ''alice'') (js ''secret'') = None
   \<and> authenticate unbind_fails_world (js ''alice'') (js ''secret'')
       = (\<lparr>success = False, error = Some (js ''Invalid credentials'')\<rparr>,
          [Bind 0 (js ''ldap://dc1'') (js ''GS-AD'' @ [backslash] @ js ''alice'') (js ''secret''),
           Unbind 0 (js ''ldap://dc1''),
           Log (js ''Auth failed for alice on dc1: socket hang up''),
           Unbind 0 (js ''ldap://dc1'')])"
  by (simp add: unbind_fails_world_def example_world_def authenticate_def cleanUsername_def
      backslash_def caught_def js_def Let_def)

subsection \<open>The directory login\<close>

lemma account_upsert_account:
  "account_upsert w pk d = (a, d') \<Longrightarrow> a \<in> set (accounts d') \<and> acc_publicKey a = pk"
proof -
  assume u: "account_upsert w pk d = (a, d')"
  show ?thesis
  proof (cases "find (\<lambda>a. acc_publicKey a = pk) (accounts d)")
    case None
    with u show ?thesis by (auto simp: account_upsert_def Let_def)
  next
    case (Some a0)
    then have "a0 \<in> set (accounts d)" and "acc_publicKey a0 = pk"
      by (auto simp: find_Some_iff)
    with u Some show ?thesis
      by (auto simp: account_upsert_def image_iff intro!: bexI [of _ a0])
  qed
qed

lemma account_upsert_user:
  "accounts d' = accounts d \<Longrightarrow> next_id d' = next_id d \<Longrightarrow>
     fst (account_upsert w pk d') = fst (account_upsert w pk d)"
  by (simp add: account_upsert_def Let_def split: option.splits)

lemma accounts_kv_upsert: "accounts (kv_upsert aid k v d) = accounts d"
  by (simp add: kv_upsert_def)

lemma accounts_store_nas_credentials:
  "accounts (store_nas_credentials w user pw n d) = accounts d"
  by (simp add: store_nas_credentials_def Let_def log_def call_db_def accounts_kv_upsert
      split: sum.splits thrown.splits option.splits)

lemma logs_store_nas_credentials_failed:
  assumes "encryptNasPassword w pw (deriveNasCredKey (master_secret w) n) = Inl (Thrown msg)
           \<or> (\<exists>blob. encryptNasPassword w pw (deriveNasCredKey (master_secret w) n) = Inr blob)
              \<and> db_fault w (KvUpsert (acc_id user) (js ''nas-credentials'')) = Some msg"
  shows "logs (store_nas_credentials w user pw n d)
           = logs d @ [js ''Failed to store NAS credentials: '' @ msg]"
  using assms
  by (auto simp: store_nas_credentials_def Let_def log_def call_db_def)

text \<open>
  The run of the handler when the directory accepts the credentials, the account upsert
  succeeds and the token issuer returns \<open>token\<close> for the account.
\<close>

lemma auth_ad_accepts:
  assumes "lb_username rq \<noteq> []" and "lb_password rq \<noteq> []"
    and "success (fst (authenticate w (lb_username rq) (lb_password rq)))"
    and "db_fault w (AccountUpsert (fst (deriveIdentity (master_secret w) (cleanUsername (lb_username rq))))) = None"
    and "createToken w
           (acc_id (fst (account_upsert w (fst (deriveIdentity (master_secret w) (cleanUsername (lb_username rq)))) d)))
           None = Inr token"
  shows "\<exists>d2.
           auth_ad w rq d
             = (send 200 (LoginBody token (snd (deriveIdentity (master_secret w) (cleanUsername (lb_username rq))))),
                log (js ''AD login success: '' @ cleanUsername (lb_username rq) @ js '' '' @ [0x2192]
                       @ js '' account ''
                       @ acc_id (fst (account_upsert w (fst (deriveIdentity (master_secret w) (cleanUsername (lb_username rq)))) d)))
                  (store_nas_credentials w
                     (fst (account_upsert w (fst (deriveIdentity (master_secret w) (cleanUsername (lb_username rq)))) d))
                     (lb_password rq) (cleanUsername (lb_username rq)) d2))"
proof -
  let ?n = "cleanUsername (lb_username rq)"
  let ?pk = "fst (deriveIdentity (master_secret w) ?n)"
  obtain r evs where au: "authenticate w (lb_username rq) (lb_password rq) = (r, evs)"
    by (cases "authenticate w (lb_username rq) (lb_password rq)")
  with assms(3) have ok: "success r" by simp
  let ?d1 = "call_db w (AccountUpsert ?pk)
               ((log (js ''AD login attempt: '' @ ?n) d)\<lparr>ldap_trace := ldap_trace (log (js ''AD login attempt: '' @ ?n) d) @ evs\<rparr>)"
  obtain u d2 where up: "account_upsert w ?pk ?d1 = (u, d2)"
    by (cases "account_upsert w ?pk ?d1")
  have "fst (account_upsert w ?pk ?d1) = fst (account_upsert w ?pk d)"
    by (rule account_upsert_user) (simp_all add: call_db_def log_def)
  with up have u: "u = fst (account_upsert w ?pk d)" by simp
  from assms(5) have tok: "createToken w (acc_id u) None = Inr token" unfolding u .
  have "auth_ad w rq d
      = (send 200 (LoginBody token (snd (deriveIdentity (master_secret w) ?n))),
         log (js ''AD login success: '' @ ?n @ js '' '' @ [0x2192] @ js '' account '' @ acc_id u)
           (store_nas_credentials w u (lb_password rq) ?n d2))"
    using assms(1,2,4) au ok up tok
    by (simp add: auth_ad_def ad_login_def Let_def)
  then show ?thesis unfolding u by blast
qed

text \<open>
  Claim C9. When the directory accepts the credentials, the account upsert succeeds and the
  token issuer returns a token for the account, the login replies 200 with that token and
  the derived secret whatever the seal or the write of the credential vault does; when
  either of them throws, the message \<open>Failed to store NAS credentials\<close> with the error is
  logged.
\<close>

theorem login_survives_vault_failure:
  assumes "lb_username rq \<noteq> []" and "lb_password rq \<noteq> []"
    and "success (fst (authenticate w (lb_username rq) (lb_password rq)))"
    and "db_fault w (AccountUpsert (fst (deriveIdentity (master_secret w) (cleanUsername (lb_username rq))))) = None"
    and "user = fst (account_upsert w (fst (deriveIdentity (master_secret w) (cleanUsername (lb_username rq)))) d)"
    and "createToken w (acc_id user) None = Inr token"
  shows "fst (auth_ad w rq d)
           = send 200 (LoginBody token (snd (deriveIdentity (master_secret w) (cleanUsername (lb_username rq)))))
       \<and> (encryptNasPassword w (lb_password rq)
              (deriveNasCredKey (master_secret w) (cleanUsername (lb_username rq))) = Inl (Thrown msg)
           \<or> (\<exists>blob. encryptNasPassword w (lb_password rq)
                  (deriveNasCredKey (master_secret w) (cleanUsername (lb_username rq))) = Inr blob)
              \<and> db_fault w (KvUpsert (acc_id user) (js ''nas-credentials'')) = Some msg
          \<longrightarrow> (js ''Failed to store NAS credentials: '' @ msg) \<in> set (logs (snd (auth_ad w rq d))))"
proof -
  let ?n = "cleanUsername (lb_username rq)"
  from assms(6) have tok: "createToken w
      (acc_id (fst (account_upsert w (fst (deriveIdentity (master_secret w) ?n)) d))) None = Inr token"
    unfolding assms(5) .
  from auth_ad_accepts [OF assms(1-4) tok] obtain d2 where
    run: "auth_ad w rq d
      = (send 200 (LoginBody token (snd (deriveIdentity (master_secret w) ?n))),
         log (js ''AD login success: '' @ ?n @ js '' '' @ [0x2192] @ js '' account '' @ acc_id user)
           (store_nas_credentials w user (lb_password rq) ?n d2))"
    unfolding assms(5) by blast
  have 1: "fst (auth_ad w rq d) = send 200 (LoginBody token (snd (deriveIdentity (master_secret w) ?n)))"
    using run by simp
  have 2: "(js ''Failed to store NAS credentials: '' @ msg) \<in> set (logs (snd (auth_ad w rq d)))"
    if "encryptNasPassword w (lb_password rq) (deriveNasCredKey (master_secret w) ?n) = Inl (Thrown msg)
           \<or> (\<exists>blob. encryptNasPassword w (lb_password rq) (deriveNasCredKey (master_secret w) ?n) = Inr blob)
              \<and> db_fault w (KvUpsert (acc_id user) (js ''nas-credentials'')) = Some msg"
  proof -
    from that
    have "logs (store_nas_credentials w user (lb_password rq) ?n d2)
            = logs d2 @ [js ''Failed to store NAS credentials: '' @ msg]"
      by (rule logs_store_nas_credentials_failed)
    then show ?thesis using run by (simp add: log_def)
  qed
  from 1 2 show ?thesis by blast
qed

lemma example_login_authenticates:
  "success (fst (authenticate kv_down_world (lb_username example_login) (lb_password example_login)))"
  by (simp add: kv_down_world_def example_world_def example_login_def authenticate_def Let_def)

lemma kv_down_seals:
  "\<exists>blob. encryptNasPassword kv_down_world pw (deriveNasCredKey ms n) = Inr blob"
proof -
  have k: "length (deriveNasCredKey ms n) = 32" by (simp add: deriveNasCredKey_def length_sha256)
  have r: "randomBytes kv_down_world 12 = Inr (replicate 12 7)"
    by (simp add: kv_down_world_def example_world_def)
  from seal_unseal [OF k r, of pw] show ?thesis by simp
qed

lemma example_names:
  "cleanUsername (js ''alice'') = js ''alice''"
  "js ''token-'' @ js ''r'' = js ''token-r''"
  "js ''Failed to store NAS credentials: '' @ js ''connection lost''
     = js ''Failed to store NAS credentials: connection lost''"
  by (simp_all add: cleanUsername_def backslash_def js_def)

theorem login_survives_vault_failure_witness:
  "lb_username example_login \<noteq> [] \<and> lb_password example_login \<noteq> []
   \<and> success (fst (authenticate kv_down_world (lb_username example_login) (lb_password example_login)))
   \<and> db_fault kv_down_world (KvUpsert (js ''r'') (js ''nas-credentials'')) = Some (js ''connection lost'')
   \<and> createToken kv_down_world (js ''r'') None = Inr (js ''token-r'')
   \<and> fst (auth_ad kv_down_world example_login empty_db)
        = send 200 (LoginBody (js ''token-r'') (snd (deriveIdentity (js ''master'') (js ''alice''))))
   \<and> js ''Failed to store NAS credentials: connection lost''
        \<in> set (logs (snd (auth_ad kv_down_world example_login empty_db)))"
proof -
  have h1: "lb_username example_login \<noteq> []" and h2: "lb_password example_login \<noteq> []"
    by (simp_all add: example_login_def js_def)
  have n: "cleanUsername (lb_username example_login) = js ''alice''"
    by (simp add: example_login_def example_names)
  have ms: "master_secret kv_down_world = js ''master''"
    by (simp add: kv_down_world_def example_world_def)
  have h4: "db_fault kv_down_world
      (AccountUpsert (fst (deriveIdentity (master_secret kv_down_world) (cleanUsername (lb_username example_login))))) = None"
    by (simp add: kv_down_world_def)
  define user where "user = fst (account_upsert kv_down_world
      (fst (deriveIdentity (master_secret kv_down_world) (cleanUsername (lb_username example_login)))) empty_db)"
  have uid: "acc_id user = js ''r''"
    by (simp add: user_def account_upsert_def empty_db_def kv_down_world_def example_world_def Let_def)
  have t: "createToken kv_down_world (js ''r'') None = Inr (js ''token-r'')"
    by (simp add: kv_down_world_def example_world_def example_names)
  from t uid have h6: "createToken kv_down_world (acc_id user) None = Inr (js ''token-r'')" by simp
  have f: "db_fault kv_down_world (KvUpsert (js ''r'') (js ''nas-credentials'')) = Some (js ''connection lost'')"
    by (simp add: kv_down_world_def)
  from login_survives_vault_failure [OF h1 h2 example_login_authenticates h4 user_def h6,
      where msg = "js ''connection lost''"]
    kv_down_seals [of "lb_password example_login" "master_secret kv_down_world"
      "cleanUsername (lb_username example_login)"] f uid
  have "fst (auth_ad kv_down_world example_login empty_db)
          = send 200 (LoginBody (js ''token-r'') (snd (deriveIdentity (js ''master'') (js ''alice''))))
     \<and> js ''Failed to store NAS credentials: connection lost''
        \<in> set (logs (snd (auth_ad kv_down_world example_login empty_db)))"
    by (simp add: n ms example_names)
  with h1 h2 example_login_authenticates f t show ?thesis by blast
qed

text \<open>
  What a reply of 200 says: the secret of the reply and the public key of an account of
  the store are the two digests of the normalized username.
\<close>

lemma auth_ad_replied_200:
  assumes "auth_ad w rq d = (r, d')" and "code r = 200"
  shows "\<exists>token a.
           payload r = LoginBody token (snd (deriveIdentity (master_secret w) (cleanUsername (lb_username rq))))
         \<and> a \<in> set (accounts d')
         \<and> acc_publicKey a = fst (deriveIdentity (master_secret w) (cleanUsername (lb_username rq)))"
proof -
  let ?n = "cleanUsername (lb_username rq)"
  let ?pk = "fst (deriveIdentity (master_secret w) ?n)"
  obtain res evs where au: "authenticate w (lb_username rq) (lb_password rq) = (res, evs)"
    by (cases "authenticate w (lb_username rq) (lb_password rq)")
  let ?d1 = "call_db w (AccountUpsert ?pk)
               ((log (js ''AD login attempt: '' @ ?n) d)\<lparr>ldap_trace := ldap_trace (log (js ''AD login attempt: '' @ ?n) d) @ evs\<rparr>)"
  obtain u d2 where up: "account_upsert w ?pk ?d1 = (u, d2)"
    by (cases "account_upsert w ?pk ?d1")
  from account_upsert_account [OF up] have mem: "u \<in> set (accounts d2)" and pk: "acc_publicKey u = ?pk"
    by simp_all
  from assms au up obtain token where
    r: "payload r = LoginBody token (snd (deriveIdentity (master_secret w) ?n))"
    and d': "d' = log (js ''AD login success: '' @ ?n @ js '' '' @ [0x2192] @ js '' account '' @ acc_id u)
                   (store_nas_credentials w u (lb_password rq) ?n d2)"
    by (auto simp: auth_ad_def ad_login_def Let_def send_def unhandled_def
        split: if_splits option.splits sum.splits thrown.splits)
  from d' mem have "u \<in> set (accounts d')"
    by (simp add: log_def accounts_store_nas_credentials)
  with r pk show ?thesis by blast
qed

text \<open>
  Claim C2, as amended. Whenever the login replies 200, the secret in the reply is the
  base64url encoding of the SHA-256 digest of \<open>"ad-secret:" + masterSecret + ":" + username\<close>
  and the account it upserted has as public key the hexadecimal encoding of the SHA-256
  digest of \<open>"ad:" + masterSecret + ":" + username\<close>, the username being the normalized
  one; both digests are 32 bytes long, so the account identifier has 64 characters.
\<close>

theorem ad_login_identity:
  assumes "auth_ad w rq d = (r, d')" and "code r = 200"
  shows "\<exists>token a.
           payload r = LoginBody token
             (base64url (sha256 (utf8_encode
                (js ''ad-secret:'' @ master_secret w @ js '':'' @ cleanUsername (lb_username rq)))))
         \<and> a \<in> set (accounts d')
         \<and> acc_publicKey a
             = hex (sha256 (utf8_encode (js ''ad:'' @ master_secret w @ js '':'' @ cleanUsername (lb_username rq))))
         \<and> length (acc_publicKey a) = 64
         \<and> length (sha256 (utf8_encode
               (js ''ad:'' @ master_secret w @ js '':'' @ cleanUsername (lb_username rq)))) = 32
         \<and> length (sha256 (utf8_encode
               (js ''ad-secret:'' @ master_secret w @ js '':'' @ cleanUsername (lb_username rq)))) = 32"
proof -
  from auth_ad_replied_200 [OF assms] obtain token a where
    "payload r = LoginBody token (snd (deriveIdentity (master_secret w) (cleanUsername (lb_username rq))))"
    "a \<in> set (accounts d')"
    "acc_publicKey a = fst (deriveIdentity (master_secret w) (cleanUsername (lb_username rq)))"
    by blast
  then show ?thesis
    by (auto simp: deriveIdentity_def length_hex length_sha256 intro!: exI [of _ token] exI [of _ a])
qed

lemma example_login_accepted:
  "code (fst (auth_ad example_world example_login empty_db)) = 200"
proof -
  have "\<exists>d2. auth_ad example_world example_login empty_db
     = (send 200 (LoginBody (js ''token-r'') (snd (deriveIdentity (master_secret example_world)
                                       (cleanUsername (lb_username example_login))))), d2)"
    using auth_ad_accepts [of example_login example_world empty_db "js ''token-r''"]
    by (simp add: example_world_def example_login_def authenticate_def account_upsert_def
        empty_db_def example_names js_def Let_def) blast
  then show ?thesis by (auto simp: send_def)
qed

theorem ad_login_identity_witness:
  "auth_ad example_world example_login empty_db
     = (fst (auth_ad example_world example_login empty_db), snd (auth_ad example_world example_login empty_db))
   \<and> code (fst (auth_ad example_world example_login empty_db)) = 200
   \<and> (\<exists>token a.
         payload (fst (auth_ad example_world example_login empty_db))
           = LoginBody token (base64url (sha256 (utf8_encode (js ''ad-secret:master:alice''))))
       \<and> a \<in> set (accounts (snd (auth_ad example_world example_login empty_db)))
       \<and> acc_publicKey a = hex (sha256 (utf8_encode (js ''ad:master:alice'')))
       \<and> length (acc_publicKey a) = 64)"
proof -
  have h1: "auth_ad example_world example_login empty_db
     = (fst (auth_ad example_world example_login empty_db), snd (auth_ad example_world example_login empty_db))"
    by simp
  have n: "cleanUsername (lb_username example_login) = js ''alice''"
    by (simp add: example_login_def example_names)
  have ms: "master_secret example_world = js ''master''"
    by (simp add: example_world_def)
  have s: "js ''ad-secret:'' @ js ''master'' @ js '':'' @ js ''alice'' = js ''ad-secret:master:alice''"
    "js ''ad:'' @ js ''master'' @ js '':'' @ js ''alice'' = js ''ad:master:alice''"
    by (simp_all add: js_def)
  from ad_login_identity [OF h1 example_login_accepted]
  have "\<exists>token a.
         payload (fst (auth_ad example_world example_login empty_db))
           = LoginBody token (base64url (sha256 (utf8_encode (js ''ad-secret:master:alice''))))
       \<and> a \<in> set (accounts (snd (auth_ad example_world example_login empty_db)))
       \<and> acc_publicKey a = hex (sha256 (utf8_encode (js ''ad:master:alice'')))
       \<and> length (acc_publicKey a) = 64"
    by (simp add: n ms s) blast
  with h1 example_login_accepted show ?thesis by blast
qed

text \<open>
  The claim as stated takes the hash to return 64 bytes, so that the account identifier
  would have 128 hexadecimal digits and the secret 86 characters. The digests of the handler
  have 32 bytes: for the master secret \<open>master\<close> and the username \<open>alice\<close> the account
  identifier has 64 digits and the secret 43 characters.
\<close>

theorem identity_digest_length_counterexample:
  "fst (deriveIdentity (js ''master'') (js ''alice''))
     = hex (sha256 (utf8_encode (js ''ad:'' @ js ''master'' @ js '':'' @ js ''alice'')))
   \<and> length (sha256 (utf8_encode (js ''ad:'' @ js ''master'' @ js '':'' @ js ''alice''))) = 32
   \<and> length (fst (deriveIdentity (js ''master'') (js ''alice''))) = 64
   \<and> length (fst (deriveIdentity (js ''master'') (js ''alice''))) \<noteq> 2 * 64
   \<and> length (snd (deriveIdentity (js ''master'') (js ''alice''))) = 43"
  by (simp add: deriveIdentity_def length_hex length_sha256 length_base64url)

text \<open>
  Claim C7. \<^verbatim>\<open>cleanUsername\<close> returns \<open>alice\<close> for \<open>GS-AD\alice\<close> and for \<open>alice\<close>, so for every
  master secret the derivation gives the same identity for both. In general, when the name
  \<open>u\<close> after the backslash contains no backslash, \<^verbatim>\<open>cleanUsername\<close> returns \<open>u\<close> for the
  prefixed and for the bare name; the whole login then behaves the same for both, and when
  it replies 200 the secret of the reply and the public key of the account are those
  derived from \<open>u\<close>.
\<close>

theorem prefix_stripped_before_derivation:
  "cleanUsername (js ''GS-AD'' @ [backslash] @ js ''alice'') = js ''alice''
   \<and> cleanUsername (js ''alice'') = js ''alice''
   \<and> deriveIdentity ms (cleanUsername (js ''GS-AD'' @ [backslash] @ js ''alice''))
       = deriveIdentity ms (cleanUsername (js ''alice''))
   \<and> (backslash \<notin> set u \<longrightarrow>
        cleanUsername (p @ [backslash] @ u) = u
        \<and> cleanUsername u = u
        \<and> deriveIdentity ms (cleanUsername (p @ [backslash] @ u)) = deriveIdentity ms (cleanUsername u)
        \<and> (u \<noteq> [] \<longrightarrow>
             auth_ad w \<lparr>lb_username = p @ [backslash] @ u, lb_password = pw\<rparr> d
               = auth_ad w \<lparr>lb_username = u, lb_password = pw\<rparr> d
             \<and> (code (fst (auth_ad w \<lparr>lb_username = p @ [backslash] @ u, lb_password = pw\<rparr> d)) = 200 \<longrightarrow>
                  (\<exists>token a.
                     payload (fst (auth_ad w \<lparr>lb_username = p @ [backslash] @ u, lb_password = pw\<rparr> d))
                       = LoginBody token (snd (deriveIdentity (master_secret w) u))
                   \<and> a \<in> set (accounts (snd (auth_ad w \<lparr>lb_username = p @ [backslash] @ u, lb_password = pw\<rparr> d)))
                   \<and> acc_publicKey a = fst (deriveIdentity (master_secret w) u)))))"
proof -
  have a: "backslash \<notin> set (js ''alice'')" by (simp add: backslash_def js_def)
  have 1: "cleanUsername (js ''GS-AD'' @ [backslash] @ js ''alice'') = js ''alice''"
    using cleanUsername_prefixed [OF a, of "js ''GS-AD''"] by simp
  have 2: "cleanUsername (js ''alice'') = js ''alice''"
    using a by (rule cleanUsername_bare)
  have 3: "deriveIdentity ms (cleanUsername (js ''GS-AD'' @ [backslash] @ js ''alice''))
       = deriveIdentity ms (cleanUsername (js ''alice''))"
    by (simp only: 1 2)
  have 4: "cleanUsername (p @ [backslash] @ u) = u" if "backslash \<notin> set u"
    using cleanUsername_prefixed [OF that, of p] by simp
  have 5: "auth_ad w \<lparr>lb_username = p @ [backslash] @ u, lb_password = pw\<rparr> d
               = auth_ad w \<lparr>lb_username = u, lb_password = pw\<rparr> d"
    if "backslash \<notin> set u" "u \<noteq> []"
    using that
    by (simp add: auth_ad_def authenticate_def cleanUsername_prefixed cleanUsername_bare)
  have 6: "\<exists>token a.
             payload (fst (auth_ad w \<lparr>lb_username = p @ [backslash] @ u, lb_password = pw\<rparr> d))
               = LoginBody token (snd (deriveIdentity (master_secret w) u))
           \<and> a \<in> set (accounts (snd (auth_ad w \<lparr>lb_username = p @ [backslash] @ u, lb_password = pw\<rparr> d)))
           \<and> acc_publicKey a = fst (deriveIdentity (master_secret w) u)"
    if "backslash \<notin> set u"
      and "code (fst (auth_ad w \<lparr>lb_username = p @ [backslash] @ u, lb_password = pw\<rparr> d)) = 200"
    using auth_ad_replied_200 [OF prod.collapse [symmetric] that(2)] 4 [OF that(1)]
    by simp
  have 7: "deriveIdentity ms (cleanUsername (p @ [backslash] @ u)) = deriveIdentity ms (cleanUsername u)"
    if "backslash \<notin> set u"
    using 4 [OF that] cleanUsername_bare [OF that] by (simp only:)
  from 1 2 3 4 5 6 7 cleanUsername_bare [of u] show ?thesis
    by blast
qed

lemma example_prefixed_login_accepted:
  "code (fst (auth_ad example_world \<lparr>lb_username = js ''CORP'' @ [backslash] @ js ''bob'', lb_password = js ''secret''\<rparr>
                empty_db)) = 200"
proof -
  have b: "backslash \<notin> set (js ''bob'')" by (simp add: backslash_def js_def)
  have n: "cleanUsername (js ''CORP'' @ backslash # js ''bob'') = js ''bob''"
    using b by (rule cleanUsername_prefixed)
  have "\<exists>d2. auth_ad example_world \<lparr>lb_username = js ''CORP'' @ [backslash] @ js ''bob'', lb_password = js ''secret''\<rparr>
          empty_db
     = (send 200 (LoginBody (js ''token-r'') (snd (deriveIdentity (master_secret example_world) (js ''bob'')))), d2)"
    using auth_ad_accepts [of "\<lparr>lb_username = js ''CORP'' @ [backslash] @ js ''bob'', lb_password = js ''secret''\<rparr>"
        example_world empty_db "js ''token-r''"]
    by (simp add: n example_world_def authenticate_def account_upsert_def empty_db_def example_names
        js_eq_Nil Let_def) blast
  then show ?thesis by (auto simp: send_def)
qed

theorem prefix_stripped_before_derivation_witness:
  "backslash \<notin> set (js ''bob'') \<and> js ''bob'' \<noteq> []
   \<and> code (fst (auth_ad example_world \<lparr>lb_username = js ''CORP'' @ [backslash] @ js ''bob'', lb_password = js ''secret''\<rparr>
                   empty_db)) = 200
   \<and> cleanUsername (js ''CORP'' @ [backslash] @ js ''bob'') = js ''bob''
   \<and> deriveIdentity (js ''master'') (cleanUsername (js ''CORP'' @ [backslash] @ js ''bob''))
       = deriveIdentity (js ''master'') (cleanUsername (js ''bob''))
   \<and> auth_ad example_world \<lparr>lb_username = js ''CORP'' @ [backslash] @ js ''bob'', lb_password = js ''secret''\<rparr> empty_db
       = auth_ad example_world \<lparr>lb_username = js ''bob'', lb_password = js ''secret''\<rparr> empty_db
   \<and> (\<exists>token a.
         payload (fst (auth_ad example_world
                         \<lparr>lb_username = js ''CORP'' @ [backslash] @ js ''bob'', lb_password = js ''secret''\<rparr> empty_db))
           = LoginBody token (snd (deriveIdentity (js ''master'') (js ''bob'')))
       \<and> a \<in> set (accounts (snd (auth_ad example_world
                         \<lparr>lb_username = js ''CORP'' @ [backslash] @ js ''bob'', lb_password = js ''secret''\<rparr> empty_db)))
       \<and> acc_publicKey a = fst (deriveIdentity (js ''master'') (js ''bob'')))"
proof -
  have h: "backslash \<notin> set (js ''bob'')" by (simp add: backslash_def js_def)
  have ne: "js ''bob'' \<noteq> []" by (simp add: js_def)
  have ms: "master_secret example_world = js ''master''" by (simp add: example_world_def)
  note inst = prefix_stripped_before_derivation
      [where u = "js ''bob''" and p = "js ''CORP''" and ms = "js ''master''" and w = example_world
         and pw = "js ''secret''" and d = empty_db, unfolded ms]
  from inst h have 1: "cleanUsername (js ''CORP'' @ [backslash] @ js ''bob'') = js ''bob''"
    and 2: "deriveIdentity (js ''master'') (cleanUsername (js ''CORP'' @ [backslash] @ js ''bob''))
       = deriveIdentity (js ''master'') (cleanUsername (js ''bob''))"
    by blast+
  from inst h ne have 3: "auth_ad example_world
        \<lparr>lb_username = js ''CORP'' @ [backslash] @ js ''bob'', lb_password = js ''secret''\<rparr> empty_db
       = auth_ad example_world \<lparr>lb_username = js ''bob'', lb_password = js ''secret''\<rparr> empty_db"
    by blast
  from inst h ne example_prefixed_login_accepted
  have 4: "\<exists>token a.
         payload (fst (auth_ad example_world
                         \<lparr>lb_username = js ''CORP'' @ [backslash] @ js ''bob'', lb_password = js ''secret''\<rparr> empty_db))
           = LoginBody token (snd (deriveIdentity (js ''master'') (js ''bob'')))
       \<and> a \<in> set (accounts (snd (auth_ad example_world
                         \<lparr>lb_username = js ''CORP'' @ [backslash] @ js ''bob'', lb_password = js ''secret''\<rparr> empty_db)))
       \<and> acc_publicKey a = fst (deriveIdentity (js ''master'') (js ''bob''))"
    by blast
  show ?thesis
    by (intro conjI h ne example_prefixed_login_accepted 1 2 3 4)
qed

subsection \<open>The pairing state machine\<close>

lemma example_key_length: "length (decodeBase64 example_world example_key) = 32"
  by (simp add: example_world_def example_key_def base64_decode_def base64_alphabet_def js_def)

lemma example_key_encoded: "encodeHex example_world (decodeBase64 example_world example_key) = example_key_hex"
  by (simp add: example_world_def example_key_def base64_decode_def base64_alphabet_def
      example_key_hex_def hex_def hex_digit_def js_def)


lemmas example_defs = example_key_length example_key_encoded pending_row_def answered_row_def
  empty_response_row_def terminal_db_def empty_db_def example_approval_def publicKeyLength_def
  findUnique_def truthy_def call_db_def send_def update_response_def js_def

lemma example_fault: "db_fault example_world op = None"
  by (simp add: example_world_def)

text \<open>
  Claim C4, as amended. A public key whose decoded length is not the key-exchange key
  length is answered before any call of the database and with the state unchanged: with
  401 and the error \<open>Invalid public key\<close> by the request and response endpoints of both
  namespaces, and with 200 and status \<open>not_found\<close>, \<open>supportsV2 = false\<close> by the status
  endpoint.
\<close>

theorem malformed_key_rejected:
  assumes "length (decodeBase64 w k) \<noteq> publicKeyLength"
  shows "auth_request w \<lparr>rq_publicKey = k, rq_supportsV2 = v\<rparr> d
           = (send 401 (ErrorBody (js ''Invalid public key'')), d)
       \<and> auth_response w uid \<lparr>rs_response = resp, rs_publicKey = k\<rparr> d
           = (send 401 (ErrorBody (js ''Invalid public key'')), d)
       \<and> auth_account_request w k d = (send 401 (ErrorBody (js ''Invalid public key'')), d)
       \<and> auth_account_response w uid \<lparr>rs_response = resp, rs_publicKey = k\<rparr> d
           = (send 401 (ErrorBody (js ''Invalid public key'')), d)
       \<and> auth_request_status w k d = (send 200 (StatusBody not_found False), d)"
  using assms
  by (simp add: auth_request_def auth_response_def auth_account_request_def
      auth_account_response_def auth_request_status_def)

lemma short_key_length: "length (decodeBase64 example_world (js ''AAAA'')) = 3"
  by (simp add: example_world_def base64_decode_def base64_alphabet_def js_def)

theorem malformed_key_rejected_witness:
  "length (decodeBase64 example_world (js ''AAAA'')) \<noteq> publicKeyLength
   \<and> auth_request example_world \<lparr>rq_publicKey = js ''AAAA'', rq_supportsV2 = None\<rparr> (terminal_db pending_row)
       = (send 401 (ErrorBody (js ''Invalid public key'')), terminal_db pending_row)
   \<and> auth_request_status example_world (js ''AAAA'') (terminal_db pending_row)
       = (send 200 (StatusBody not_found False), terminal_db pending_row)"
proof -
  have h: "length (decodeBase64 example_world (js ''AAAA'')) \<noteq> publicKeyLength"
    by (simp add: short_key_length publicKeyLength_def)
  show ?thesis
    using h malformed_key_rejected [OF h, where v = None and d = "terminal_db pending_row"] by simp
qed

text \<open>
  The claim as stated asks for 401 on every pairing endpoint; the status endpoint answers a
  3-byte key with 200.
\<close>

theorem status_malformed_key_counterexample:
  "length (decodeBase64 example_world (js ''AAAA'')) \<noteq> publicKeyLength
   \<and> code (fst (auth_request_status example_world (js ''AAAA'') empty_db)) = 200
   \<and> code (fst (auth_request_status example_world (js ''AAAA'') empty_db)) \<noteq> 401"
  by (simp add: auth_request_status_def short_key_length publicKeyLength_def send_def)

text \<open>
  What the write-once guard of the approval handlers achieves. When the stored response is
  a non-empty string, an approval whose lookup does not fail returns success and leaves
  every table unchanged, and a request call on the same key leaves the tables unchanged as
  well. When the stored response is \<^verbatim>\<open>null\<close> or the empty string, the approval writes
  both fields.
\<close>

lemma approval_kept_when_truthy:
  assumes "length (decodeBase64 w (rs_publicKey rs)) = publicKeyLength"
    and "k = encodeHex w (decodeBase64 w (rs_publicKey rs))"
  shows "(findUnique k (terminalAuthRequests d) = Some r \<and> truthy (response r)
            \<and> db_fault w (TerminalFindUnique k) = None
          \<longrightarrow> auth_response w uid rs d
                = (send 200 SuccessBody, d\<lparr>ops := ops d @ [TerminalFindUnique k]\<rparr>))
       \<and> (findUnique k (accountAuthRequests d) = Some a \<and> truthy (response a)
            \<and> db_fault w (AccountReqFindUnique k) = None
          \<longrightarrow> auth_account_response w uid rs d
                = (send 200 SuccessBody, d\<lparr>ops := ops d @ [AccountReqFindUnique k]\<rparr>))
       \<and> (findUnique k (terminalAuthRequests d) = Some r
          \<longrightarrow> snd (auth_request w \<lparr>rq_publicKey = rs_publicKey rs, rq_supportsV2 = v\<rparr> d)
                = d\<lparr>ops := ops d @ [TerminalUpsert k]\<rparr>)
       \<and> (findUnique k (accountAuthRequests d) = Some a
          \<longrightarrow> snd (auth_account_request w (rs_publicKey rs) d)
                = d\<lparr>ops := ops d @ [AccountReqUpsert k]\<rparr>)"
proof (intro conjI impI)
  assume "findUnique k (terminalAuthRequests d) = Some r \<and> truthy (response r)
            \<and> db_fault w (TerminalFindUnique k) = None"
  with assms show "auth_response w uid rs d
                = (send 200 SuccessBody, d\<lparr>ops := ops d @ [TerminalFindUnique k]\<rparr>)"
    by (simp add: auth_response_def Let_def call_db_def)
next
  assume "findUnique k (accountAuthRequests d) = Some a \<and> truthy (response a)
            \<and> db_fault w (AccountReqFindUnique k) = None"
  with assms show "auth_account_response w uid rs d
                = (send 200 SuccessBody, d\<lparr>ops := ops d @ [AccountReqFindUnique k]\<rparr>)"
    by (simp add: auth_account_response_def Let_def call_db_def)
next
  assume "findUnique k (terminalAuthRequests d) = Some r"
  with assms show "snd (auth_request w \<lparr>rq_publicKey = rs_publicKey rs, rq_supportsV2 = v\<rparr> d)
                = d\<lparr>ops := ops d @ [TerminalUpsert k]\<rparr>"
    by (auto simp: auth_request_def Let_def call_db_def split: option.splits sum.splits thrown.splits)
next
  assume "findUnique k (accountAuthRequests d) = Some a"
  with assms show "snd (auth_account_request w (rs_publicKey rs) d)
                = d\<lparr>ops := ops d @ [AccountReqUpsert k]\<rparr>"
    by (auto simp: auth_account_request_def Let_def call_db_def split: option.splits sum.splits thrown.splits)
qed

lemma approval_writes_when_falsy:
  assumes "length (decodeBase64 w (rs_publicKey rs)) = publicKeyLength"
    and "k = encodeHex w (decodeBase64 w (rs_publicKey rs))"
  shows "(findUnique k (terminalAuthRequests d) = Some r \<and> \<not> truthy (response r)
            \<and> db_fault w (TerminalFindUnique k) = None \<and> db_fault w (TerminalUpdate (req_id r)) = None
          \<longrightarrow> auth_response w uid rs d
                = (send 200 SuccessBody,
                   d\<lparr>ops := ops d @ [TerminalFindUnique k, TerminalUpdate (req_id r)],
                     terminalAuthRequests :=
                       update_response (req_id r) (rs_response rs) uid (terminalAuthRequests d)\<rparr>))
       \<and> (findUnique k (accountAuthRequests d) = Some a \<and> \<not> truthy (response a)
            \<and> db_fault w (AccountReqFindUnique k) = None \<and> db_fault w (AccountReqUpdate (req_id a)) = None
          \<longrightarrow> auth_account_response w uid rs d
                = (send 200 SuccessBody,
                   d\<lparr>ops := ops d @ [AccountReqFindUnique k, AccountReqUpdate (req_id a)],
                     accountAuthRequests :=
                       update_response (req_id a) (rs_response rs) uid (accountAuthRequests d)\<rparr>))"
  using assms
  by (simp add: auth_response_def auth_account_response_def Let_def call_db_def)

text \<open>
  Claim C3, at the failing input. On a pending request of the terminal namespace \<open>alice\<close>
  approves with the response \<open>""\<close>, which the schema of the route accepts: the approval
  stores \<open>response = ""\<close> and \<open>responseAccountId = alice\<close>. Both fields are set now, yet a
  later approval by \<open>bob\<close> with the response \<open>R2\<close> returns success and overwrites both,
  because the guard \<^verbatim>\<open>!authRequest.response\<close> takes the empty string for no response. The
  handler of the account namespace has the same guard and does the same.
\<close>

theorem empty_response_overwritten:
  "snd (auth_response example_world (js ''alice'') (example_approval []) (terminal_db pending_row))
     = (terminal_db empty_response_row)\<lparr>ops := [TerminalFindUnique example_key_hex, TerminalUpdate (js ''r1'')]\<rparr>
   \<and> response empty_response_row = Some []
   \<and> responseAccountId empty_response_row = Some (js ''alice'')
   \<and> fst (auth_response example_world (js ''bob'') (example_approval (js ''R2'')) (terminal_db empty_response_row))
     = send 200 SuccessBody
   \<and> map (\<lambda>r. (response r, responseAccountId r))
        (terminalAuthRequests
          (snd (auth_response example_world (js ''bob'') (example_approval (js ''R2'')) (terminal_db empty_response_row))))
     = [(Some (js ''R2''), Some (js ''bob''))]
   \<and> snd (auth_account_response example_world (js ''alice'') (example_approval [])
             (account_db (auth_request.truncate pending_row)))
     = (account_db (auth_request.truncate empty_response_row))
         \<lparr>ops := [AccountReqFindUnique example_key_hex, AccountReqUpdate (js ''r1'')]\<rparr>
   \<and> fst (auth_account_response example_world (js ''bob'') (example_approval (js ''R2''))
             (account_db (auth_request.truncate empty_response_row)))
     = send 200 SuccessBody
   \<and> map (\<lambda>r. (response r, responseAccountId r))
        (accountAuthRequests
          (snd (auth_account_response example_world (js ''bob'') (example_approval (js ''R2''))
                  (account_db (auth_request.truncate empty_response_row)))))
     = [(Some (js ''R2''), Some (js ''bob''))]"
  by (simp add: auth_response_def auth_account_response_def Let_def example_defs example_fault
      account_db_def auth_request.truncate_def)

text \<open>
  Claim C10. Whenever the status endpoint reports \<open>authorized\<close> or \<open>not_found\<close> it reports
  \<open>supportsV2 = false\<close>, whatever flag the record stores; a \<open>pending\<close> report carries the
  stored flag.
\<close>

theorem status_supportsV2:
  assumes "payload (fst (auth_request_status w q d)) = StatusBody s b"
  shows "(s = authorized \<or> s = not_found \<longrightarrow> b = False)
       \<and> (s = pending \<longrightarrow>
            (\<exists>r. findUnique (encodeHex w (decodeBase64 w q)) (terminalAuthRequests d) = Some r
                 \<and> b = supportsV2 r))"
  using assms
  by (auto simp: auth_request_status_def Let_def send_def unhandled_def call_db_def
      split: if_splits option.splits)

theorem status_supportsV2_witness:
  "supportsV2 answered_row
   \<and> payload (fst (auth_request_status example_world example_key (terminal_db answered_row)))
       = StatusBody authorized False"
proof -
  have h: "payload (fst (auth_request_status example_world example_key (terminal_db answered_row)))
       = StatusBody authorized False"
    by (simp add: auth_request_status_def Let_def example_defs example_fault)
  show ?thesis
    using h status_supportsV2 [OF h] by (simp add: answered_row_def pending_row_def)
qed

end
